theory Spec2Isabelle
  imports Complex_Main "HOL-Library.Word"
begin

unbundle bit_operations_syntax

section \<open>MouseShare companion clients (Linux and Windows)\<close>

text \<open>
  The repository holds two companion programs, \<^verbatim>\<open>linux/mouseshare.py\<close> and
  \<^verbatim>\<open>windows/mouseshare.py\<close>. Both connect to the Mac over TCP, read
  length-prefixed JSON frames, and replay each event as local input
  (\<^verbatim>\<open>inject_event\<close>); when an injected pointer move lands within
  \<^verbatim>\<open>EDGE_THRESHOLD\<close> pixels of the left edge they send a
  \<^verbatim>\<open>returnControl\<close> frame back.  Functions that exist in both files carry
  the prefix \<open>linux_\<close> or \<open>windows_\<close> here; \<^verbatim>\<open>_read_exact\<close> is the same
  text in both files and is embedded once.
\<close>

subsection \<open>Python numbers\<close>

text \<open>
  A JSON number arrives from \<^verbatim>\<open>json.loads\<close> as a Python \<^verbatim>\<open>int\<close> or
  \<^verbatim>\<open>float\<close>.  Integers are unbounded (\<open>int\<close>).  A finite float is carried
  by its exact value, a real number, and the two float operations of the source
  (\<^verbatim>\<open>nx * SCREEN_WIDTH\<close> and \<^verbatim>\<open>y / SCREEN_HEIGHT\<close>) are computed
  exactly, where CPython rounds the result to the nearest double: the model
  and CPython agree whenever the exact result is a double, which is so at
  every concrete input evaluated below.  \<^verbatim>\<open>int(v)\<close> truncates a float
  towards zero.  \<^verbatim>\<open>NaN\<close> and the infinities, on which \<^verbatim>\<open>int(v)\<close>
  raises, are not modelled: the numbers of an event are finite, and small
  enough for their product with the screen size or with \<^verbatim>\<open>WHEEL_DELTA\<close>
  to stay in the range of a double.
\<close>

datatype pynum = PyInt int | PyFloat real

fun py_mul :: "pynum \<Rightarrow> int \<Rightarrow> pynum" where
  "py_mul (PyInt a) n = PyInt (a * n)"
| "py_mul (PyFloat r) n = PyFloat (r * of_int n)"

fun py_int :: "pynum \<Rightarrow> int" where
  "py_int (PyInt a) = a"
| "py_int (PyFloat r) = (if 0 \<le> r then \<lfloor>r\<rfloor> else \<lceil>r\<rceil>)"

fun py_truth :: "pynum \<Rightarrow> bool" where
  "py_truth (PyInt a) = (a \<noteq> 0)"
| "py_truth (PyFloat r) = (r \<noteq> 0)"

definition py_truediv :: "int \<Rightarrow> int \<Rightarrow> pynum" where
  "py_truediv a b = PyFloat (of_int a / of_int b)"

subsection \<open>Events\<close>

text \<open>
  \<^verbatim>\<open>inject_event\<close> receives the decoded JSON object as a \<^verbatim>\<open>dict\<close> and
  reads it only through \<^verbatim>\<open>event.get\<close> on six keys.  The record has one
  optional field per key, \<open>None\<close> when the key is missing.  The fields carry
  the types of the wire protocol: \<^verbatim>\<open>type\<close> a string, the coordinates and
  scroll deltas numbers, \<^verbatim>\<open>keyCode\<close> an integer (a JSON \<^verbatim>\<open>null\<close> key
  code reads as \<^verbatim>\<open>None\<close>, like a missing one).  A dict with a value of
  another Python type under one of these keys is outside this model.
\<close>

record event =
  etype :: "string option"
  normalizedX :: "pynum option"
  normalizedY :: "pynum option"
  keyCode :: "int option"
  scrollDeltaX :: "pynum option"
  scrollDeltaY :: "pynum option"

text \<open>\<^verbatim>\<open>event.get(key, 0)\<close>: the default is used only when the key is missing.\<close>

definition get_or_0 :: "pynum option \<Rightarrow> pynum" where
  "get_or_0 v = (case v of None \<Rightarrow> PyInt 0 | Some n \<Rightarrow> n)"

definition no_event :: event where
  "no_event = \<lparr>etype = None, normalizedX = None, normalizedY = None,
     keyCode = None, scrollDeltaX = None, scrollDeltaY = None\<rparr>"

subsection \<open>Observable actions\<close>

text \<open>
  Every call that leaves the program is recorded as an action, in the order of
  the calls: log records, the injection calls of either platform, and the
  socket operations of \<^verbatim>\<open>tcp_client\<close>.  The injection backends
  (\<^verbatim>\<open>SendInput\<close>, \<^verbatim>\<open>SetCursorPos\<close>, \<^verbatim>\<open>xdotool\<close>, the uinput
  device) are assumed to return normally.  The outgoing frame is kept as the
  dict handed to \<^verbatim>\<open>json.dumps\<close>: its \<^verbatim>\<open>type\<close> is always
  \<^verbatim>\<open>returnControl\<close>, \<^verbatim>\<open>normalizedX\<close> is \<open>0\<close> and \<^verbatim>\<open>edge\<close> is
  \<^verbatim>\<open>left\<close>, so only \<^verbatim>\<open>normalizedY\<close> is stored.
\<close>

datatype level = INFO | WARNING | ERROR

datatype logmsg =
    Connecting_to_Mac
  | Connected_to_Mac
  | Invalid_message_length nat
  | Left_edge_hit
  | Connection_timed_out
  | Connection_lost
  | Unexpected_error
  | Reconnecting
  | Unknown_Mac_keycode int
  | Mac_sent_returnControl
  | Released_stuck nat
  | Edge_detection_active
  | Left_edge_reached
  | Failed_to_send_returnControl

datatype status = Status_Connecting | Status_Connected | Status_Disconnected

type_synonym ecode = string

datatype action =
    Log level logmsg
  | SetCursorPos int int
  | SendInput_mouse "32 word" "32 word"
  | SendInput_key "16 word" "32 word"
  | Xdotool_mousemove int int
  | Ydotool_mousemove int int
  | Device_write string ecode int
  | Device_syn
  | Open_connection
  | Set_status status
  | Write_returnControl pynum
  | Writer_close
  | Sleep_reconnect_delay
  | Sleep_edge_poll_interval

subsection \<open>Configuration\<close>

definition EDGE_THRESHOLD :: int where
  "EDGE_THRESHOLD = 5"

subsection \<open>Windows: constants and key table\<close>

definition MOUSEEVENTF_LEFTDOWN :: int where "MOUSEEVENTF_LEFTDOWN = 0x0002"
definition MOUSEEVENTF_LEFTUP :: int where "MOUSEEVENTF_LEFTUP = 0x0004"
definition MOUSEEVENTF_RIGHTDOWN :: int where "MOUSEEVENTF_RIGHTDOWN = 0x0008"
definition MOUSEEVENTF_RIGHTUP :: int where "MOUSEEVENTF_RIGHTUP = 0x0010"
definition MOUSEEVENTF_WHEEL :: int where "MOUSEEVENTF_WHEEL = 0x0800"
definition MOUSEEVENTF_HWHEEL :: int where "MOUSEEVENTF_HWHEEL = 0x1000"
definition KEYEVENTF_KEYUP :: int where "KEYEVENTF_KEYUP = 0x0002"
definition KEYEVENTF_EXTENDEDKEY :: int where "KEYEVENTF_EXTENDEDKEY = 0x0001"
definition WHEEL_DELTA :: int where "WHEEL_DELTA = 120"

text \<open>
  The virtual-key constants, and the table from Mac key codes to them.  The
  letters and digits are \<^verbatim>\<open>ord('A')\<close> = 65 to \<^verbatim>\<open>ord('Z')\<close> = 90 and
  \<^verbatim>\<open>ord('0')\<close> = 48 to \<^verbatim>\<open>ord('9')\<close> = 57.  A Python dict literal is
  an association list whose keys are distinct; \<^verbatim>\<open>dict.get\<close> is \<open>map_of\<close>.
\<close>

abbreviation VK_BACK :: int where "VK_BACK \<equiv> 0x08"
abbreviation VK_TAB :: int where "VK_TAB \<equiv> 0x09"
abbreviation VK_RETURN :: int where "VK_RETURN \<equiv> 0x0D"
abbreviation VK_CAPITAL :: int where "VK_CAPITAL \<equiv> 0x14"
abbreviation VK_ESCAPE :: int where "VK_ESCAPE \<equiv> 0x1B"
abbreviation VK_SPACE :: int where "VK_SPACE \<equiv> 0x20"
abbreviation VK_PRIOR :: int where "VK_PRIOR \<equiv> 0x21"
abbreviation VK_NEXT :: int where "VK_NEXT \<equiv> 0x22"
abbreviation VK_END :: int where "VK_END \<equiv> 0x23"
abbreviation VK_HOME :: int where "VK_HOME \<equiv> 0x24"
abbreviation VK_LEFT :: int where "VK_LEFT \<equiv> 0x25"
abbreviation VK_UP :: int where "VK_UP \<equiv> 0x26"
abbreviation VK_RIGHT :: int where "VK_RIGHT \<equiv> 0x27"
abbreviation VK_DOWN :: int where "VK_DOWN \<equiv> 0x28"
abbreviation VK_INSERT :: int where "VK_INSERT \<equiv> 0x2D"
abbreviation VK_DELETE :: int where "VK_DELETE \<equiv> 0x2E"
abbreviation VK_LWIN :: int where "VK_LWIN \<equiv> 0x5B"
abbreviation VK_RWIN :: int where "VK_RWIN \<equiv> 0x5C"
abbreviation VK_NUMPAD0 :: int where "VK_NUMPAD0 \<equiv> 0x60"
abbreviation VK_NUMPAD1 :: int where "VK_NUMPAD1 \<equiv> 0x61"
abbreviation VK_NUMPAD2 :: int where "VK_NUMPAD2 \<equiv> 0x62"
abbreviation VK_NUMPAD3 :: int where "VK_NUMPAD3 \<equiv> 0x63"
abbreviation VK_NUMPAD4 :: int where "VK_NUMPAD4 \<equiv> 0x64"
abbreviation VK_NUMPAD5 :: int where "VK_NUMPAD5 \<equiv> 0x65"
abbreviation VK_NUMPAD6 :: int where "VK_NUMPAD6 \<equiv> 0x66"
abbreviation VK_NUMPAD7 :: int where "VK_NUMPAD7 \<equiv> 0x67"
abbreviation VK_NUMPAD8 :: int where "VK_NUMPAD8 \<equiv> 0x68"
abbreviation VK_NUMPAD9 :: int where "VK_NUMPAD9 \<equiv> 0x69"
abbreviation VK_MULTIPLY :: int where "VK_MULTIPLY \<equiv> 0x6A"
abbreviation VK_ADD :: int where "VK_ADD \<equiv> 0x6B"
abbreviation VK_SUBTRACT :: int where "VK_SUBTRACT \<equiv> 0x6D"
abbreviation VK_DECIMAL :: int where "VK_DECIMAL \<equiv> 0x6E"
abbreviation VK_DIVIDE :: int where "VK_DIVIDE \<equiv> 0x6F"
abbreviation VK_F1 :: int where "VK_F1 \<equiv> 0x70"
abbreviation VK_F2 :: int where "VK_F2 \<equiv> 0x71"
abbreviation VK_F3 :: int where "VK_F3 \<equiv> 0x72"
abbreviation VK_F4 :: int where "VK_F4 \<equiv> 0x73"
abbreviation VK_F5 :: int where "VK_F5 \<equiv> 0x74"
abbreviation VK_F6 :: int where "VK_F6 \<equiv> 0x75"
abbreviation VK_F7 :: int where "VK_F7 \<equiv> 0x76"
abbreviation VK_F8 :: int where "VK_F8 \<equiv> 0x77"
abbreviation VK_F9 :: int where "VK_F9 \<equiv> 0x78"
abbreviation VK_F10 :: int where "VK_F10 \<equiv> 0x79"
abbreviation VK_F11 :: int where "VK_F11 \<equiv> 0x7A"
abbreviation VK_F12 :: int where "VK_F12 \<equiv> 0x7B"
abbreviation VK_NUMLOCK :: int where "VK_NUMLOCK \<equiv> 0x90"
abbreviation VK_LSHIFT :: int where "VK_LSHIFT \<equiv> 0xA0"
abbreviation VK_RSHIFT :: int where "VK_RSHIFT \<equiv> 0xA1"
abbreviation VK_LCONTROL :: int where "VK_LCONTROL \<equiv> 0xA2"
abbreviation VK_RCONTROL :: int where "VK_RCONTROL \<equiv> 0xA3"
abbreviation VK_LMENU :: int where "VK_LMENU \<equiv> 0xA4"
abbreviation VK_RMENU :: int where "VK_RMENU \<equiv> 0xA5"
abbreviation VK_OEM_1 :: int where "VK_OEM_1 \<equiv> 0xBA"
abbreviation VK_OEM_PLUS :: int where "VK_OEM_PLUS \<equiv> 0xBB"
abbreviation VK_OEM_COMMA :: int where "VK_OEM_COMMA \<equiv> 0xBC"
abbreviation VK_OEM_MINUS :: int where "VK_OEM_MINUS \<equiv> 0xBD"
abbreviation VK_OEM_PERIOD :: int where "VK_OEM_PERIOD \<equiv> 0xBE"
abbreviation VK_OEM_2 :: int where "VK_OEM_2 \<equiv> 0xBF"
abbreviation VK_OEM_3 :: int where "VK_OEM_3 \<equiv> 0xC0"
abbreviation VK_OEM_4 :: int where "VK_OEM_4 \<equiv> 0xDB"
abbreviation VK_OEM_5 :: int where "VK_OEM_5 \<equiv> 0xDC"
abbreviation VK_OEM_6 :: int where "VK_OEM_6 \<equiv> 0xDD"
abbreviation VK_OEM_7 :: int where "VK_OEM_7 \<equiv> 0xDE"

definition MAC_TO_WIN_KEYCODE :: "(int \<times> int) list" where
  "MAC_TO_WIN_KEYCODE = [
    (0, 65), (11, 66), (8, 67), (2, 68), (14, 69),
    (3, 70), (5, 71), (4, 72), (34, 73), (38, 74),
    (40, 75), (37, 76), (46, 77), (45, 78), (31, 79),
    (35, 80), (12, 81), (15, 82), (1, 83), (17, 84),
    (32, 85), (9, 86), (13, 87), (7, 88), (16, 89),
    (6, 90), (29, 48), (18, 49), (19, 50), (20, 51),
    (21, 52), (23, 53), (22, 54), (26, 55), (28, 56),
    (25, 57), (49, VK_SPACE), (36, VK_RETURN), (51, VK_BACK), (48, VK_TAB),
    (53, VK_ESCAPE), (43, VK_OEM_COMMA), (47, VK_OEM_PERIOD), (44, VK_OEM_2), (41, VK_OEM_1),
    (39, VK_OEM_7), (33, VK_OEM_4), (30, VK_OEM_6), (42, VK_OEM_5), (50, VK_OEM_3),
    (27, VK_OEM_MINUS), (24, VK_OEM_PLUS), (56, VK_LSHIFT), (60, VK_RSHIFT), (59, VK_LCONTROL),
    (62, VK_RCONTROL), (58, VK_LMENU), (61, VK_RMENU), (55, VK_LWIN), (54, VK_RWIN),
    (57, VK_CAPITAL), (122, VK_F1), (120, VK_F2), (99, VK_F3), (118, VK_F4),
    (96, VK_F5), (97, VK_F6), (98, VK_F7), (100, VK_F8), (101, VK_F9),
    (109, VK_F10), (103, VK_F11), (111, VK_F12), (123, VK_LEFT), (124, VK_RIGHT),
    (125, VK_DOWN), (126, VK_UP), (115, VK_HOME), (119, VK_END), (116, VK_PRIOR),
    (121, VK_NEXT), (117, VK_DELETE), (114, VK_INSERT), (71, VK_NUMLOCK), (82, VK_NUMPAD0),
    (83, VK_NUMPAD1), (84, VK_NUMPAD2), (85, VK_NUMPAD3), (86, VK_NUMPAD4), (87, VK_NUMPAD5),
    (88, VK_NUMPAD6), (89, VK_NUMPAD7), (91, VK_NUMPAD8), (92, VK_NUMPAD9), (65, VK_DECIMAL),
    (69, VK_ADD), (78, VK_SUBTRACT), (67, VK_MULTIPLY), (75, VK_DIVIDE), (76, VK_RETURN)]"

definition EXTENDED_KEYS :: "int list" where
  "EXTENDED_KEYS = [
    VK_INSERT, VK_DELETE, VK_HOME, VK_END, VK_PRIOR, VK_NEXT,
    VK_LEFT, VK_RIGHT, VK_UP, VK_DOWN,
    VK_LWIN, VK_RWIN, VK_RCONTROL, VK_RMENU, VK_DIVIDE]"

subsection \<open>Windows: input injection\<close>

text \<open>
  \<^verbatim>\<open>_pressed_keys\<close> is a Python set of ints: virtual-key codes, and \<open>-1\<close> and
  \<open>-2\<close> for the left and right mouse button.  It is modelled by a list without
  repetitions; \<open>set_add\<close> and \<open>set_discard\<close> are \<^verbatim>\<open>set.add\<close> and
  \<^verbatim>\<open>set.discard\<close>.  Python does not specify the order in which a set is
  iterated; the model iterates in insertion order, and no statement below
  depends on that order.
\<close>

definition set_add :: "int \<Rightarrow> int list \<Rightarrow> int list" where
  "set_add x xs = (if x \<in> set xs then xs else xs @ [x])"

definition set_discard :: "int \<Rightarrow> int list \<Rightarrow> int list" where
  "set_discard x xs = removeAll x xs"

text \<open>
  \<^verbatim>\<open>_send_mouse_input(flags, data)\<close> (\<^verbatim>\<open>dx\<close> and \<^verbatim>\<open>dy\<close> are never
  passed and stay 0) and \<^verbatim>\<open>_send_key_input(vk, down)\<close>.  The ctypes
  constructors \<^verbatim>\<open>DWORD\<close> and \<^verbatim>\<open>WORD\<close> keep the low 32 and 16 bits of
  their argument without a range check.
\<close>

definition send_mouse_input :: "int \<Rightarrow> int \<Rightarrow> action" where
  "send_mouse_input flags data =
     SendInput_mouse (word_of_int flags) (word_of_int (data AND 0xFFFFFFFF))"

definition send_key_input :: "int \<Rightarrow> bool \<Rightarrow> action" where
  "send_key_input vk down =
     (let flags = 0;
          flags = (if \<not> down then flags OR KEYEVENTF_KEYUP else flags);
          flags = (if vk \<in> set EXTENDED_KEYS then flags OR KEYEVENTF_EXTENDEDKEY else flags)
      in SendInput_key (word_of_int vk) (word_of_int flags))"

text \<open>
  \<^verbatim>\<open>_release_all_keys()\<close>: the actions it performs, in order, and
  \<^verbatim>\<open>_pressed_keys\<close> as its last statement,
  \<^verbatim>\<open>_pressed_keys.clear()\<close>, leaves it.  The loop over the set hands
  every member to \<^verbatim>\<open>_send_key_input\<close>, the two mouse slots included.
\<close>

definition release_all_keys :: "int list \<Rightarrow> action list \<times> int list" where
  "release_all_keys pressed =
     (map (\<lambda>vk. send_key_input vk False) pressed
      @ (if -1 \<in> set pressed then [send_mouse_input MOUSEEVENTF_LEFTUP 0] else [])
      @ (if -2 \<in> set pressed then [send_mouse_input MOUSEEVENTF_RIGHTUP 0] else [])
      @ (if pressed \<noteq> [] then [Log INFO (Released_stuck (length pressed))] else []),
      [])"

text \<open>
  \<^verbatim>\<open>inject_event(event)\<close> of the Windows client, with the globals
  \<^verbatim>\<open>SCREEN_WIDTH\<close>, \<^verbatim>\<open>SCREEN_HEIGHT\<close> and \<^verbatim>\<open>_pressed_keys\<close> as
  arguments.  The result is the returned pair, the new \<^verbatim>\<open>_pressed_keys\<close>
  and the actions performed.
\<close>

definition windows_inject_event ::
  "int \<Rightarrow> int \<Rightarrow> event \<Rightarrow> int list \<Rightarrow> (bool \<times> pynum) \<times> int list \<times> action list" where
  "windows_inject_event SCREEN_WIDTH SCREEN_HEIGHT event pressed =
     (let event_type = etype event in
      if event_type = Some ''mouseMove'' then
        (let nx = get_or_0 (normalizedX event);
             ny = get_or_0 (normalizedY event);
             x = py_int (py_mul nx SCREEN_WIDTH);
             y = py_int (py_mul ny SCREEN_HEIGHT);
             x = max 0 (min x (SCREEN_WIDTH - 1));
             y = max 0 (min y (SCREEN_HEIGHT - 1))
         in if x \<le> EDGE_THRESHOLD
            then (let norm_y = (if SCREEN_HEIGHT \<noteq> 0 then py_truediv y SCREEN_HEIGHT else PyInt 0)
                  in ((True, norm_y), pressed, [SetCursorPos x y]))
            else ((False, PyInt 0), pressed, [SetCursorPos x y]))
      else if event_type = Some ''leftMouseDown'' then
        ((False, PyInt 0), set_add (-1) pressed, [send_mouse_input MOUSEEVENTF_LEFTDOWN 0])
      else if event_type = Some ''leftMouseUp'' then
        ((False, PyInt 0), set_discard (-1) pressed, [send_mouse_input MOUSEEVENTF_LEFTUP 0])
      else if event_type = Some ''rightMouseDown'' then
        ((False, PyInt 0), set_add (-2) pressed, [send_mouse_input MOUSEEVENTF_RIGHTDOWN 0])
      else if event_type = Some ''rightMouseUp'' then
        ((False, PyInt 0), set_discard (-2) pressed, [send_mouse_input MOUSEEVENTF_RIGHTUP 0])
      else if event_type = Some ''keyDown'' \<or> event_type = Some ''keyUp'' then
        (case keyCode event of
           None \<Rightarrow> ((False, PyInt 0), pressed, [])
         | Some mac_code \<Rightarrow>
            (case map_of MAC_TO_WIN_KEYCODE mac_code of
               None \<Rightarrow> ((False, PyInt 0), pressed, [Log WARNING (Unknown_Mac_keycode mac_code)])
             | Some vk \<Rightarrow>
                (let down = (event_type = Some ''keyDown'')
                 in ((False, PyInt 0),
                     (if down then set_add vk pressed else set_discard vk pressed),
                     [send_key_input vk down]))))
      else if event_type = Some ''scrollWheel'' then
        (let dx = get_or_0 (scrollDeltaX event);
             dy = get_or_0 (scrollDeltaY event)
         in ((False, PyInt 0), pressed,
             (if py_truth dy
              then [send_mouse_input MOUSEEVENTF_WHEEL (py_int (py_mul dy WHEEL_DELTA))] else [])
             @ (if py_truth dx
                then [send_mouse_input MOUSEEVENTF_HWHEEL (py_int (py_mul dx WHEEL_DELTA))] else [])))
      else if event_type = Some ''returnControl'' then
        (let (released, pressed') = release_all_keys pressed
         in ((False, PyInt 0), pressed', released @ [Log INFO Mac_sent_returnControl]))
      else ((False, PyInt 0), pressed, []))"

subsection \<open>Linux: key table and input injection\<close>

text \<open>
  The values of the Linux table are constants of the \<^verbatim>\<open>evdev.ecodes\<close>
  module, which is not part of the repository: an event code is modelled by
  the name of its constant.  \<^verbatim>\<open>USE_WAYLAND\<close> is read from the environment
  at start-up and is an argument here, like the screen size.
\<close>

definition MAC_TO_LINUX_KEYCODE :: "(int \<times> ecode) list" where
  "MAC_TO_LINUX_KEYCODE = [
    (0, ''KEY_A''), (11, ''KEY_B''), (8, ''KEY_C''), (2, ''KEY_D''),
    (14, ''KEY_E''), (3, ''KEY_F''), (5, ''KEY_G''), (4, ''KEY_H''),
    (34, ''KEY_I''), (38, ''KEY_J''), (40, ''KEY_K''), (37, ''KEY_L''),
    (46, ''KEY_M''), (45, ''KEY_N''), (31, ''KEY_O''), (35, ''KEY_P''),
    (12, ''KEY_Q''), (15, ''KEY_R''), (1, ''KEY_S''), (17, ''KEY_T''),
    (32, ''KEY_U''), (9, ''KEY_V''), (13, ''KEY_W''), (7, ''KEY_X''),
    (16, ''KEY_Y''), (6, ''KEY_Z''), (29, ''KEY_0''), (18, ''KEY_1''),
    (19, ''KEY_2''), (20, ''KEY_3''), (21, ''KEY_4''), (23, ''KEY_5''),
    (22, ''KEY_6''), (26, ''KEY_7''), (28, ''KEY_8''), (25, ''KEY_9''),
    (49, ''KEY_SPACE''), (36, ''KEY_ENTER''), (51, ''KEY_BACKSPACE''), (48, ''KEY_TAB''),
    (53, ''KEY_ESC''), (43, ''KEY_COMMA''), (47, ''KEY_DOT''), (44, ''KEY_SLASH''),
    (41, ''KEY_SEMICOLON''), (39, ''KEY_APOSTROPHE''), (33, ''KEY_LEFTBRACE''), (30, ''KEY_RIGHTBRACE''),
    (42, ''KEY_BACKSLASH''), (50, ''KEY_GRAVE''), (27, ''KEY_MINUS''), (24, ''KEY_EQUAL''),
    (56, ''KEY_LEFTSHIFT''), (60, ''KEY_RIGHTSHIFT''), (59, ''KEY_LEFTCTRL''), (62, ''KEY_RIGHTCTRL''),
    (58, ''KEY_LEFTALT''), (61, ''KEY_RIGHTALT''), (55, ''KEY_LEFTMETA''), (54, ''KEY_RIGHTMETA''),
    (57, ''KEY_CAPSLOCK''), (122, ''KEY_F1''), (120, ''KEY_F2''), (99, ''KEY_F3''),
    (118, ''KEY_F4''), (96, ''KEY_F5''), (97, ''KEY_F6''), (98, ''KEY_F7''),
    (100, ''KEY_F8''), (101, ''KEY_F9''), (109, ''KEY_F10''), (103, ''KEY_F11''),
    (111, ''KEY_F12''), (123, ''KEY_LEFT''), (124, ''KEY_RIGHT''), (125, ''KEY_DOWN''),
    (126, ''KEY_UP''), (115, ''KEY_HOME''), (119, ''KEY_END''), (116, ''KEY_PAGEUP''),
    (121, ''KEY_PAGEDOWN''), (117, ''KEY_DELETE''), (114, ''KEY_INSERT''), (71, ''KEY_NUMLOCK''),
    (82, ''KEY_KP0''), (83, ''KEY_KP1''), (84, ''KEY_KP2''), (85, ''KEY_KP3''),
    (86, ''KEY_KP4''), (87, ''KEY_KP5''), (88, ''KEY_KP6''), (89, ''KEY_KP7''),
    (91, ''KEY_KP8''), (92, ''KEY_KP9''), (65, ''KEY_KPDOT''), (69, ''KEY_KPPLUS''),
    (78, ''KEY_KPMINUS''), (67, ''KEY_KPASTERISK''), (75, ''KEY_KPSLASH''), (76, ''KEY_KPENTER'')]"

definition linux_inject_mouse_move :: "bool \<Rightarrow> int \<Rightarrow> int \<Rightarrow> event \<Rightarrow> (int \<times> int) \<times> action list" where
  "linux_inject_mouse_move USE_WAYLAND SCREEN_WIDTH SCREEN_HEIGHT event =
     (let nx = get_or_0 (normalizedX event);
          ny = get_or_0 (normalizedY event);
          x = py_int (py_mul nx SCREEN_WIDTH);
          y = py_int (py_mul ny SCREEN_HEIGHT);
          x = max 0 (min x (SCREEN_WIDTH - 1));
          y = max 0 (min y (SCREEN_HEIGHT - 1))
      in ((x, y), [if USE_WAYLAND then Ydotool_mousemove x y else Xdotool_mousemove x y]))"

text \<open>
  \<^verbatim>\<open>inject_event(event, device)\<close> of the Linux daemon.  The Linux file has
  no counterpart of \<^verbatim>\<open>_pressed_keys\<close>: the function has no state, and its
  result is the returned pair and the actions performed.
\<close>

definition linux_inject_event ::
  "bool \<Rightarrow> int \<Rightarrow> int \<Rightarrow> event \<Rightarrow> (bool \<times> pynum) \<times> action list" where
  "linux_inject_event USE_WAYLAND SCREEN_WIDTH SCREEN_HEIGHT event =
     (let event_type = etype event in
      if event_type = Some ''mouseMove'' then
        (let ((x, y), moved) = linux_inject_mouse_move USE_WAYLAND SCREEN_WIDTH SCREEN_HEIGHT event
         in if x \<le> EDGE_THRESHOLD
            then (let norm_y = (if SCREEN_HEIGHT \<noteq> 0 then py_truediv y SCREEN_HEIGHT else PyInt 0)
                  in ((True, norm_y), moved))
            else ((False, PyInt 0), moved))
      else if event_type = Some ''leftMouseDown'' then
        ((False, PyInt 0), [Device_write ''EV_KEY'' ''BTN_LEFT'' 1, Device_syn])
      else if event_type = Some ''leftMouseUp'' then
        ((False, PyInt 0), [Device_write ''EV_KEY'' ''BTN_LEFT'' 0, Device_syn])
      else if event_type = Some ''rightMouseDown'' then
        ((False, PyInt 0), [Device_write ''EV_KEY'' ''BTN_RIGHT'' 1, Device_syn])
      else if event_type = Some ''rightMouseUp'' then
        ((False, PyInt 0), [Device_write ''EV_KEY'' ''BTN_RIGHT'' 0, Device_syn])
      else if event_type = Some ''keyDown'' \<or> event_type = Some ''keyUp'' then
        (case keyCode event of
           None \<Rightarrow> ((False, PyInt 0), [])
         | Some mac_code \<Rightarrow>
            (case map_of MAC_TO_LINUX_KEYCODE mac_code of
               None \<Rightarrow> ((False, PyInt 0), [Log WARNING (Unknown_Mac_keycode mac_code)])
             | Some linux_code \<Rightarrow>
                (let v = (if event_type = Some ''keyDown'' then 1 else 0)
                 in ((False, PyInt 0), [Device_write ''EV_KEY'' linux_code v, Device_syn]))))
      else if event_type = Some ''scrollWheel'' then
        (let dx = get_or_0 (scrollDeltaX event);
             dy = get_or_0 (scrollDeltaY event)
         in ((False, PyInt 0),
             (if py_truth dy then [Device_write ''EV_REL'' ''REL_WHEEL'' (py_int dy)] else [])
             @ (if py_truth dx then [Device_write ''EV_REL'' ''REL_HWHEEL'' (py_int dx)] else [])
             @ (if py_truth dy \<or> py_truth dx then [Device_syn] else [])))
      else if event_type = Some ''returnControl'' then
        ((False, PyInt 0), [Log INFO Mac_sent_returnControl])
      else ((False, PyInt 0), []))"

subsection \<open>The byte stream\<close>

text \<open>
  What the peer does on one connection is a list of stream items, consumed by
  the calls of \<^verbatim>\<open>reader.read\<close>: \<open>Data chunk\<close> are bytes that have
  arrived (one call returns at most as many as it asked for and leaves the
  rest for the next call), \<open>Fail e\<close> makes the pending read raise \<open>e\<close>
  (\<open>TimeoutError\<close> is the \<^verbatim>\<open>asyncio.wait_for\<close> around the read giving
  up), and the end of the list, like an empty chunk, is the end of the stream:
  \<^verbatim>\<open>reader.read\<close> returns \<^verbatim>\<open>b""\<close>.
\<close>

type_synonym byte = "8 word"

datatype exn = ConnectionError | OSError | TimeoutError | ValueError | AttributeError

datatype rd = Data "byte list" | Fail exn

text \<open>
  \<^verbatim>\<open>_read_exact(reader, n)\<close> with its accumulator \<^verbatim>\<open>data\<close>, started at
  \<open>[]\<close>.  The result is the exception raised or the bytes read, and the
  stream that is left.
\<close>

fun read_exact :: "nat \<Rightarrow> byte list \<Rightarrow> rd list \<Rightarrow> (exn + byte list) \<times> rd list" where
  "read_exact n data [] =
     (if length data < n then (Inl ConnectionError, []) else (Inr data, []))"
| "read_exact n data (Fail e # rest) =
     (if length data < n then (Inl e, rest) else (Inr data, Fail e # rest))"
| "read_exact n data (Data chunk # rest) =
     (if length data < n then
        (if chunk = [] then (Inl ConnectionError, rest)
         else if length chunk \<le> n - length data then read_exact n (data @ chunk) rest
         else (Inr (data @ take (n - length data) chunk),
               Data (drop (n - length data) chunk) # rest))
      else (Inr data, Data chunk # rest))"

text \<open>\<^verbatim>\<open>struct.unpack("!I", header)[0]\<close>: four bytes, big-endian, unsigned.\<close>

definition unpack_I :: "byte list \<Rightarrow> nat" where
  "unpack_I header = foldl (\<lambda>acc b. acc * 256 + unat b) 0 header"

text \<open>
  \<^verbatim>\<open>json.loads(payload.decode("utf-8"))\<close> belongs to the Python library,
  not to the repository, and is a parameter of the model: a function from the
  payload to \<open>Malformed\<close> (either call raises, a \<^verbatim>\<open>ValueError\<close> in both
  cases), \<open>Not_a_dict\<close> (a JSON value without \<^verbatim>\<open>get\<close>, on which the first
  line of \<^verbatim>\<open>inject_event\<close> raises \<^verbatim>\<open>AttributeError\<close>) or the event.
\<close>

datatype decoded = Malformed | Not_a_dict | Dict event

type_synonym decoder = "byte list \<Rightarrow> decoded"

text \<open>
  How the inner \<^verbatim>\<open>while True\<close> is left: by \<^verbatim>\<open>break\<close> or by an
  exception.  The loop has no other exit.
\<close>

datatype ending = Break | Raised exn

type_synonym 'st loop_result = "ending \<times> 'st \<times> action list \<times> rd list"

definition prepend_actions :: "action list \<Rightarrow> 'st loop_result \<Rightarrow> 'st loop_result" where
  "prepend_actions acts r = (case r of (how, st, later, left) \<Rightarrow> (how, st, acts @ later, left))"

text \<open>The size of a stream, which every successful read of at least one byte decreases.\<close>

fun rd_size :: "rd \<Rightarrow> nat" where
  "rd_size (Data chunk) = Suc (length chunk)"
| "rd_size (Fail e) = 1"

definition stream_size :: "rd list \<Rightarrow> nat" where
  "stream_size s = sum_list (map rd_size s)"

subsection \<open>Windows: the TCP client\<close>

text \<open>
  The inner loop of \<^verbatim>\<open>tcp_client\<close>.  \<open>drains\<close> is what the peer does to
  the successive \<^verbatim>\<open>writer.write\<close>/\<^verbatim>\<open>writer.drain\<close> pairs: \<open>Some e\<close>
  raises \<open>e\<close>, \<open>None\<close> and the end of the list succeed.  The result is how
  the loop ended, \<^verbatim>\<open>_pressed_keys\<close> at that point, the actions performed and
  the unread stream.
\<close>

function windows_read_loop ::
  "decoder \<Rightarrow> int \<Rightarrow> int \<Rightarrow> int list \<Rightarrow> rd list \<Rightarrow> exn option list \<Rightarrow> (int list) loop_result" where
  "windows_read_loop loads W H pressed incoming drains =
     (case read_exact 4 [] incoming of
        (Inl e, incoming1) \<Rightarrow> (Raised e, pressed, [], incoming1)
      | (Inr header, incoming1) \<Rightarrow>
         (if unpack_I header = 0 \<or> unpack_I header > 1000000
          then (Break, pressed, [Log WARNING (Invalid_message_length (unpack_I header))], incoming1)
          else
            (case read_exact (unpack_I header) [] incoming1 of
               (Inl e, incoming2) \<Rightarrow> (Raised e, pressed, [], incoming2)
             | (Inr payload, incoming2) \<Rightarrow>
                (case loads payload of
                   Malformed \<Rightarrow> (Raised ValueError, pressed, [], incoming2)
                 | Not_a_dict \<Rightarrow> (Raised AttributeError, pressed, [], incoming2)
                 | Dict event \<Rightarrow>
                    (case windows_inject_event W H event pressed of
                       ((should_return, norm_y), pressed1, injected) \<Rightarrow>
                        (if should_return then
                           (case drains of
                              Some e # _ \<Rightarrow>
                                (Raised e, pressed1,
                                 injected @ [Log INFO Left_edge_hit, Write_returnControl norm_y],
                                 incoming2)
                            | _ \<Rightarrow>
                                prepend_actions
                                  (injected @ [Log INFO Left_edge_hit, Write_returnControl norm_y])
                                  (windows_read_loop loads W H pressed1 incoming2 (tl drains)))
                         else
                           prepend_actions injected
                             (windows_read_loop loads W H pressed1 incoming2 drains)))))))"
  by pat_completeness auto

termination windows_read_loop
proof -
  have le: "read_exact n d s = (Inr x, s') \<Longrightarrow>
      stream_size s' \<le> stream_size s \<and> (length d < n \<longrightarrow> stream_size s' < stream_size s)"
    for n d s x s'
    by (induction n d s rule: read_exact.induct) (auto simp: stream_size_def split: if_splits)
  have dec: "stream_size s' < stream_size s"
    if "(Inr x, s') = read_exact n d s" and "length d < n" for n d s x s'
    using le [OF that(1) [symmetric]] that(2) by simp
  have two: "stream_size s2 < stream_size s"
    if "(Inr h, s1) = read_exact 4 [] s" and "(Inr p, s2) = read_exact (unpack_I h) [] s1"
      and "unpack_I h \<noteq> 0" for s s1 s2 h p
    using dec [OF that(1)] dec [OF that(2)] that(3) by simp
  show ?thesis
    by (relation "measure (\<lambda>(loads, W, H, pressed, incoming, drains). stream_size incoming)")
       (auto dest: two)
qed

declare windows_read_loop.simps [simp del]

text \<open>
  The \<^verbatim>\<open>except\<close> clauses of the Windows \<^verbatim>\<open>tcp_client\<close>, in their order:
  \<^verbatim>\<open>asyncio.TimeoutError\<close>, then \<^verbatim>\<open>ConnectionError\<close> and
  \<^verbatim>\<open>OSError\<close>, then every other \<^verbatim>\<open>Exception\<close>.
\<close>

definition windows_except :: "exn \<Rightarrow> action" where
  "windows_except e =
     (if e = TimeoutError then Log WARNING Connection_timed_out
      else if e = ConnectionError \<or> e = OSError then Log WARNING Connection_lost
      else Log ERROR Unexpected_error)"

text \<open>
  What one connection attempt meets: \<^verbatim>\<open>open_connection\<close> raises, or it
  returns a connection with its incoming stream and the fate of the writes.
\<close>

datatype attempt = Connect_fails exn | Connects "rd list" "exn option list"

text \<open>
  One round of the outer \<^verbatim>\<open>while True\<close> of the Windows client: the
  \<^verbatim>\<open>try\<close> block, the handler that matches, the \<^verbatim>\<open>finally\<close> block
  (\<^verbatim>\<open>_release_all_keys()\<close>, the status, \<^verbatim>\<open>writer.close()\<close> when a
  writer exists) and the sleep.  Assigning \<^verbatim>\<open>_connection_status\<close> and
  calling \<^verbatim>\<open>tray_update\<close> is one \<open>Set_status\<close> action.
\<close>

definition windows_round ::
  "decoder \<Rightarrow> int \<Rightarrow> int \<Rightarrow> attempt \<Rightarrow> int list \<Rightarrow> int list \<times> action list" where
  "windows_round loads W H att pressed =
     (case att of
        Connect_fails e \<Rightarrow>
          (case release_all_keys pressed of
             (released, pressed') \<Rightarrow>
               (pressed',
                [Set_status Status_Connecting, Log INFO Connecting_to_Mac, Open_connection]
                @ [windows_except e]
                @ released @ [Set_status Status_Disconnected]
                @ [Log INFO Reconnecting, Sleep_reconnect_delay]))
      | Connects incoming drains \<Rightarrow>
          (case windows_read_loop loads W H pressed incoming drains of
             (how, pressed1, acts, left) \<Rightarrow>
               (case release_all_keys pressed1 of
                  (released, pressed2) \<Rightarrow>
                    (pressed2,
                     [Set_status Status_Connecting, Log INFO Connecting_to_Mac, Open_connection]
                     @ [Log INFO Connected_to_Mac, Set_status Status_Connected]
                     @ acts
                     @ (case how of Break \<Rightarrow> [] | Raised e \<Rightarrow> [windows_except e])
                     @ released @ [Set_status Status_Disconnected, Writer_close]
                     @ [Log INFO Reconnecting, Sleep_reconnect_delay]))))"

text \<open>
  \<^verbatim>\<open>tcp_client\<close> never returns.  The model runs it against a finite list
  of connection attempts and stops where the next \<^verbatim>\<open>open_connection\<close>
  would be called with nothing left in the list.
\<close>

fun windows_tcp_client ::
  "decoder \<Rightarrow> int \<Rightarrow> int \<Rightarrow> attempt list \<Rightarrow> int list \<Rightarrow> int list \<times> action list" where
  "windows_tcp_client loads W H [] pressed = (pressed, [])"
| "windows_tcp_client loads W H (att # atts) pressed =
     (case windows_round loads W H att pressed of
        (pressed1, acts) \<Rightarrow>
          (case windows_tcp_client loads W H atts pressed1 of
             (pressed2, later) \<Rightarrow> (pressed2, acts @ later)))"

subsection \<open>Linux: the TCP client\<close>

text \<open>
  The inner loop of the Linux \<^verbatim>\<open>tcp_client\<close>.  It has no state besides the
  stream (the second component of the result is \<open>()\<close>) and no
  \<^verbatim>\<open>wait_for\<close>: a \<open>Fail\<close> item is an exception of \<^verbatim>\<open>reader.read\<close>
  itself.
\<close>

function linux_read_loop ::
  "decoder \<Rightarrow> bool \<Rightarrow> int \<Rightarrow> int \<Rightarrow> rd list \<Rightarrow> exn option list \<Rightarrow> unit loop_result" where
  "linux_read_loop loads WL W H incoming drains =
     (case read_exact 4 [] incoming of
        (Inl e, incoming1) \<Rightarrow> (Raised e, (), [], incoming1)
      | (Inr header, incoming1) \<Rightarrow>
         (if unpack_I header = 0 \<or> unpack_I header > 1000000
          then (Break, (), [Log WARNING (Invalid_message_length (unpack_I header))], incoming1)
          else
            (case read_exact (unpack_I header) [] incoming1 of
               (Inl e, incoming2) \<Rightarrow> (Raised e, (), [], incoming2)
             | (Inr payload, incoming2) \<Rightarrow>
                (case loads payload of
                   Malformed \<Rightarrow> (Raised ValueError, (), [], incoming2)
                 | Not_a_dict \<Rightarrow> (Raised AttributeError, (), [], incoming2)
                 | Dict event \<Rightarrow>
                    (case linux_inject_event WL W H event of
                       ((should_return, norm_y), injected) \<Rightarrow>
                        (if should_return then
                           (case drains of
                              Some e # _ \<Rightarrow>
                                (Raised e, (),
                                 injected @ [Log INFO Left_edge_hit, Write_returnControl norm_y],
                                 incoming2)
                            | _ \<Rightarrow>
                                prepend_actions
                                  (injected @ [Log INFO Left_edge_hit, Write_returnControl norm_y])
                                  (linux_read_loop loads WL W H incoming2 (tl drains)))
                         else
                           prepend_actions injected
                             (linux_read_loop loads WL W H incoming2 drains)))))))"
  by pat_completeness auto
termination linux_read_loop
proof -
  have le: "read_exact n d s = (Inr x, s') \<Longrightarrow>
      stream_size s' \<le> stream_size s \<and> (length d < n \<longrightarrow> stream_size s' < stream_size s)"
    for n d s x s'
    by (induction n d s rule: read_exact.induct) (auto simp: stream_size_def split: if_splits)
  have dec: "stream_size s' < stream_size s"
    if "(Inr x, s') = read_exact n d s" and "length d < n" for n d s x s'
    using le [OF that(1) [symmetric]] that(2) by simp
  have two: "stream_size s2 < stream_size s"
    if "(Inr h, s1) = read_exact 4 [] s" and "(Inr p, s2) = read_exact (unpack_I h) [] s1"
      and "unpack_I h \<noteq> 0" for s s1 s2 h p
    using dec [OF that(1)] dec [OF that(2)] that(3) by simp
  show ?thesis
    by (relation "measure (\<lambda>(loads, WL, W, H, incoming, drains). stream_size incoming)")
       (auto dest: two)
qed

declare linux_read_loop.simps [simp del]

text \<open>
  The \<^verbatim>\<open>except\<close> clauses of the Linux \<^verbatim>\<open>tcp_client\<close>:
  \<^verbatim>\<open>ConnectionError\<close> and \<^verbatim>\<open>OSError\<close> (of which the built-in
  \<^verbatim>\<open>TimeoutError\<close> is a subclass), then every other \<^verbatim>\<open>Exception\<close>.
\<close>

definition linux_except :: "exn \<Rightarrow> action" where
  "linux_except e =
     (if e = ConnectionError \<or> e = OSError \<or> e = TimeoutError then Log WARNING Connection_lost
      else Log ERROR Unexpected_error)"

text \<open>
  One round of the outer \<^verbatim>\<open>while True\<close> of the Linux daemon.  There is no
  \<^verbatim>\<open>finally\<close> block: after the handler the code logs and sleeps.
\<close>

definition linux_round :: "decoder \<Rightarrow> bool \<Rightarrow> int \<Rightarrow> int \<Rightarrow> attempt \<Rightarrow> action list" where
  "linux_round loads WL W H att =
     (case att of
        Connect_fails e \<Rightarrow>
          [Log INFO Connecting_to_Mac, Open_connection]
          @ [linux_except e]
          @ [Log INFO Reconnecting, Sleep_reconnect_delay]
      | Connects incoming drains \<Rightarrow>
          (case linux_read_loop loads WL W H incoming drains of
             (how, u, acts, left) \<Rightarrow>
               [Log INFO Connecting_to_Mac, Open_connection]
               @ [Log INFO Connected_to_Mac]
               @ acts
               @ (case how of Break \<Rightarrow> [] | Raised e \<Rightarrow> [linux_except e])
               @ [Log INFO Reconnecting, Sleep_reconnect_delay]))"

fun linux_tcp_client :: "decoder \<Rightarrow> bool \<Rightarrow> int \<Rightarrow> int \<Rightarrow> attempt list \<Rightarrow> action list" where
  "linux_tcp_client loads WL W H [] = []"
| "linux_tcp_client loads WL W H (att # atts) =
     linux_round loads WL W H att @ linux_tcp_client loads WL W H atts"

subsection \<open>Linux: the polling edge detection\<close>




subsection \<open>Events and notions used in the statements\<close>

text \<open>Events as the Mac sends them, for use as concrete inputs.\<close>

definition mouseMove :: "pynum \<Rightarrow> pynum \<Rightarrow> event" where
  "mouseMove nx ny =
     no_event\<lparr>etype := Some ''mouseMove'', normalizedX := Some nx, normalizedY := Some ny\<rparr>"

definition keyDown :: "int \<Rightarrow> event" where
  "keyDown k = no_event\<lparr>etype := Some ''keyDown'', keyCode := Some k\<rparr>"

definition keyUp :: "int \<Rightarrow> event" where
  "keyUp k = no_event\<lparr>etype := Some ''keyUp'', keyCode := Some k\<rparr>"

definition bare_event :: "string \<Rightarrow> event" where
  "bare_event t = no_event\<lparr>etype := Some t\<rparr>"

text \<open>The value of a Python number, and truncation towards zero.\<close>

fun num_value :: "pynum \<Rightarrow> real" where
  "num_value (PyInt a) = of_int a"
| "num_value (PyFloat r) = r"

definition trunc :: "real \<Rightarrow> int" where
  "trunc v = (if 0 \<le> v then \<lfloor>v\<rfloor> else \<lceil>v\<rceil>)"

text \<open>
  The pixel coordinate that both clients compute from a normalised coordinate
  \<open>n\<close> and a screen dimension \<open>W\<close>, written with the value of \<open>n\<close>:
  \<open>max(0, min(trunc(n * W), W - 1))\<close>.
\<close>

definition pixel :: "pynum \<Rightarrow> int \<Rightarrow> int" where
  "pixel n W = max 0 (min (trunc (num_value n * of_int W)) (W - 1))"



text \<open>A normalised coordinate in \<open>[0, 1]\<close>; a pixel inside a screen of \<open>W\<close> by \<open>H\<close>.\<close>

definition in_unit :: "pynum \<Rightarrow> bool" where
  "in_unit n \<longleftrightarrow> 0 \<le> num_value n \<and> num_value n \<le> 1"

definition in_screen :: "int \<Rightarrow> int \<Rightarrow> int \<Rightarrow> int \<Rightarrow> bool" where
  "in_screen W H x y \<longleftrightarrow> 0 \<le> x \<and> x < W \<and> 0 \<le> y \<and> y < H"

text \<open>
  The edge signal that goes with the pixel \<open>(x, y)\<close>: hand back when \<open>x\<close> is
  within the threshold, with \<open>y / H\<close> (and \<open>0\<close> when \<open>H = 0\<close>).
\<close>

definition edge_signal :: "int \<Rightarrow> int \<Rightarrow> int \<Rightarrow> bool \<times> pynum" where
  "edge_signal H x y =
     (if x \<le> 5 then (True, if H = 0 then PyInt 0 else PyFloat (of_int y / of_int H))
      else (False, PyInt 0))"

text \<open>Several events in a row, on either platform.\<close>

fun windows_inject_events :: "int \<Rightarrow> int \<Rightarrow> event list \<Rightarrow> int list \<Rightarrow> int list \<times> action list" where
  "windows_inject_events W H [] pressed = (pressed, [])"
| "windows_inject_events W H (e # es) pressed =
     (case windows_inject_event W H e pressed of
        (r, pressed1, acts) \<Rightarrow>
          (case windows_inject_events W H es pressed1 of
             (pressed2, later) \<Rightarrow> (pressed2, acts @ later)))"

fun linux_inject_events :: "bool \<Rightarrow> int \<Rightarrow> int \<Rightarrow> event list \<Rightarrow> action list" where
  "linux_inject_events WL W H [] = []"
| "linux_inject_events WL W H (e # es) =
     snd (linux_inject_event WL W H e) @ linux_inject_events WL W H es"

subsection \<open>Frames on the wire, for concrete inputs\<close>

text \<open>
  A frame as its sender writes it, \<^verbatim>\<open>struct.pack("!I", len(payload)) + payload\<close>
  (the length is below \<open>2\<^sup>3\<^sup>2\<close>), and the bytes of an ASCII text.
\<close>

definition pack_I :: "nat \<Rightarrow> byte list" where
  "pack_I n = [of_nat (n div 2 ^ 24), of_nat (n div 2 ^ 16), of_nat (n div 2 ^ 8), of_nat n]"

definition frame :: "byte list \<Rightarrow> byte list" where
  "frame payload = pack_I (length payload) @ payload"

definition ascii :: "string \<Rightarrow> byte list" where
  "ascii s = map of_char s"

text \<open>
  The decoder used in the concrete runs below.  It is \<^verbatim>\<open>json.loads\<close> on
  three payloads: a pointer move to the left edge at half height, a key-down
  of Mac key code 0 (the letter A), and a text that is cut off after a comma
  and so is not JSON.  Its value on any other payload is not used.
\<close>

definition example_loads :: decoder where
  \<open>example_loads payload =
     (if payload = ascii ''{"type":"mouseMove","normalizedX":0.0,"normalizedY":0.5}''
      then Dict (mouseMove (PyFloat 0) (PyFloat (1 / 2)))
      else if payload = ascii ''{"type":"keyDown","keyCode":0}''
      then Dict (keyDown 0)
      else Malformed)\<close>

definition move_payload :: "byte list" where
  \<open>move_payload = ascii ''{"type":"mouseMove","normalizedX":0.0,"normalizedY":0.5}''\<close>

definition key_payload :: "byte list" where
  \<open>key_payload = ascii ''{"type":"keyDown","keyCode":0}''\<close>

definition cut_payload :: "byte list" where
  \<open>cut_payload = ascii ''{"type":"keyDown",''\<close>

text \<open>The \<^verbatim>\<open>returnControl\<close> frames among a list of actions.\<close>

fun is_returnControl :: "action \<Rightarrow> bool" where
  "is_returnControl (Write_returnControl n) = True"
| "is_returnControl a = False"

definition actions_of :: "'st loop_result \<Rightarrow> action list" where
  "actions_of r = fst (snd (snd r))"

subsection \<open>What the injected input leaves down\<close>

text \<open>
  The keys and buttons that a sequence of \<^verbatim>\<open>SendInput\<close> calls leaves down,
  as Windows sees them: a keyboard input presses its virtual key unless
  \<^verbatim>\<open>KEYEVENTF_KEYUP\<close> is set, and a mouse input presses or releases a
  button according to its \<^verbatim>\<open>MOUSEEVENTF\<close> flags.  \<open>recorded pressed\<close> are
  the keys and buttons that \<^verbatim>\<open>_pressed_keys\<close> stands for.
\<close>

datatype input = Key "16 word" | Left_button | Right_button

fun track :: "input set \<Rightarrow> action \<Rightarrow> input set" where
  "track down (SendInput_key vk flags) =
     (if flags AND 0x0002 = 0 then insert (Key vk) down else down - {Key vk})"
| "track down (SendInput_mouse flags d) =
     (let down = (if flags AND 0x0002 \<noteq> 0 then insert Left_button down else down);
          down = (if flags AND 0x0004 \<noteq> 0 then down - {Left_button} else down);
          down = (if flags AND 0x0008 \<noteq> 0 then insert Right_button down else down);
          down = (if flags AND 0x0010 \<noteq> 0 then down - {Right_button} else down)
      in down)"
| "track down a = down"

definition left_down :: "action list \<Rightarrow> input set" where
  "left_down acts = foldl track {} acts"

definition recorded :: "int list \<Rightarrow> input set" where
  "recorded pressed =
     set (map (\<lambda>vk. Key (word_of_int vk)) (filter (\<lambda>vk. 0 \<le> vk) pressed))
     \<union> (if -1 \<in> set pressed then {Left_button} else {})
     \<union> (if -2 \<in> set pressed then {Right_button} else {})"

section \<open>Properties of event injection\<close>

lemmas event_defs = no_event_def mouseMove_def keyDown_def keyUp_def bare_event_def

lemmas key_flag_defs = send_key_input_def send_mouse_input_def EXTENDED_KEYS_def
  KEYEVENTF_KEYUP_def KEYEVENTF_EXTENDEDKEY_def MOUSEEVENTF_LEFTUP_def MOUSEEVENTF_RIGHTUP_def
  MOUSEEVENTF_LEFTDOWN_def MOUSEEVENTF_RIGHTDOWN_def

lemma py_int_py_mul: "py_int (py_mul n W) = trunc (num_value n * of_int W)"
proof (cases n)
  case (PyInt a)
  have "trunc (of_int (a * W)) = a * W"
    by (simp add: trunc_def del: of_int_mult)
  then show ?thesis using PyInt by simp
next
  case (PyFloat r)
  then show ?thesis by (simp add: trunc_def)
qed

lemma windows_mouse_move:
  assumes "etype e = Some ''mouseMove''"
  shows "windows_inject_event W H e ps =
    (edge_signal H (pixel (get_or_0 (normalizedX e)) W) (pixel (get_or_0 (normalizedY e)) H),
     ps,
     [SetCursorPos (pixel (get_or_0 (normalizedX e)) W) (pixel (get_or_0 (normalizedY e)) H)])"
  using assms
  by (simp add: windows_inject_event_def Let_def EDGE_THRESHOLD_def edge_signal_def pixel_def
      py_int_py_mul py_truediv_def)

lemma linux_mouse_move:
  assumes "etype e = Some ''mouseMove''"
  shows "linux_inject_event WL W H e =
    (edge_signal H (pixel (get_or_0 (normalizedX e)) W) (pixel (get_or_0 (normalizedY e)) H),
     [if WL then Ydotool_mousemove (pixel (get_or_0 (normalizedX e)) W) (pixel (get_or_0 (normalizedY e)) H)
      else Xdotool_mousemove (pixel (get_or_0 (normalizedX e)) W) (pixel (get_or_0 (normalizedY e)) H)])"
  using assms
  by (simp add: linux_inject_event_def linux_inject_mouse_move_def Let_def EDGE_THRESHOLD_def
      edge_signal_def pixel_def py_int_py_mul py_truediv_def)

lemma windows_not_mouse_move:
  assumes "etype e \<noteq> Some ''mouseMove''"
  shows "fst (windows_inject_event W H e ps) = (False, PyInt 0)"
  using assms
  by (simp add: windows_inject_event_def Let_def split: option.split prod.split)

lemma linux_not_mouse_move:
  assumes "etype e \<noteq> Some ''mouseMove''"
  shows "fst (linux_inject_event WL W H e) = (False, PyInt 0)"
  using assms
  by (simp add: linux_inject_event_def Let_def split: option.split prod.split)

lemma pixel_in_range: "0 < W \<Longrightarrow> 0 \<le> pixel n W \<and> pixel n W < W"
  by (simp add: pixel_def)


subsection \<open>Pointer moves\<close>






text \<open>
  Claim C7, as stated, fails when the screen geometry has a zero dimension, a
  value the code itself provides for (\<^verbatim>\<open>if SCREEN_HEIGHT else 0\<close>): with
  \<open>SCREEN_WIDTH = 0\<close> the clamp \<open>max(0, min(x, -1))\<close> yields \<open>x = 0\<close>, which is
  not below the width.
\<close>

theorem C7_zero_width_counterexample:
  "snd (snd (windows_inject_event 0 1080 (mouseMove (PyFloat (1 / 2)) (PyFloat (1 / 2))) []))
     = [SetCursorPos 0 540]
   \<and> snd (linux_inject_event False 0 1080 (mouseMove (PyFloat (1 / 2)) (PyFloat (1 / 2))))
     = [Xdotool_mousemove 0 540]
   \<and> in_unit (PyFloat (1 / 2))
   \<and> \<not> in_screen 0 1080 0 540"
  by (simp add: windows_inject_event_def linux_inject_event_def linux_inject_mouse_move_def
      event_defs get_or_0_def EDGE_THRESHOLD_def py_truediv_def in_unit_def in_screen_def)

text \<open>
  Claim C7, amended: on a screen with \<open>width \<ge> 1\<close> and \<open>height \<ge> 1\<close>, for every
  \<open>mouseMove{nx, ny}\<close> with \<open>nx, ny \<in> [0, 1]\<close> the coordinates passed to the
  cursor-move call satisfy \<open>0 \<le> x < width\<close> and \<open>0 \<le> y < height\<close>.
\<close>

theorem C7_coordinates_in_screen:
  assumes "etype e = Some ''mouseMove''"
    and "0 < W" and "0 < H"
    and "in_unit (get_or_0 (normalizedX e))" and "in_unit (get_or_0 (normalizedY e))"
  shows "\<exists>x y. in_screen W H x y
           \<and> snd (snd (windows_inject_event W H e ps)) = [SetCursorPos x y]
           \<and> snd (linux_inject_event False W H e) = [Xdotool_mousemove x y]
           \<and> snd (linux_inject_event True W H e) = [Ydotool_mousemove x y]"
proof -
  let ?x = "pixel (get_or_0 (normalizedX e)) W"
  let ?y = "pixel (get_or_0 (normalizedY e)) H"
  from \<open>0 < W\<close> have "0 \<le> ?x \<and> ?x < W" by (rule pixel_in_range)
  moreover from \<open>0 < H\<close> have "0 \<le> ?y \<and> ?y < H" by (rule pixel_in_range)
  ultimately have "in_screen W H ?x ?y" by (simp add: in_screen_def)
  moreover from assms(1)
  have "snd (snd (windows_inject_event W H e ps)) = [SetCursorPos ?x ?y]"
    by (simp add: windows_mouse_move)
  moreover from assms(1)
  have "snd (linux_inject_event False W H e) = [Xdotool_mousemove ?x ?y]"
    and "snd (linux_inject_event True W H e) = [Ydotool_mousemove ?x ?y]"
    by (simp_all add: linux_mouse_move)
  ultimately show ?thesis by blast
qed

theorem C7_coordinates_in_screen_witness:
  "etype (mouseMove (PyInt 1) (PyFloat (1 / 2))) = Some ''mouseMove''
   \<and> (0::int) < 1920 \<and> (0::int) < 1080
   \<and> in_unit (get_or_0 (normalizedX (mouseMove (PyInt 1) (PyFloat (1 / 2)))))
   \<and> in_unit (get_or_0 (normalizedY (mouseMove (PyInt 1) (PyFloat (1 / 2)))))
   \<and> (\<exists>x y. in_screen 1920 1080 x y
         \<and> snd (snd (windows_inject_event 1920 1080 (mouseMove (PyInt 1) (PyFloat (1 / 2))) []))
             = [SetCursorPos x y]
         \<and> snd (linux_inject_event False 1920 1080 (mouseMove (PyInt 1) (PyFloat (1 / 2))))
             = [Xdotool_mousemove x y]
         \<and> snd (linux_inject_event True 1920 1080 (mouseMove (PyInt 1) (PyFloat (1 / 2))))
             = [Ydotool_mousemove x y])"
proof -
  have h1: "etype (mouseMove (PyInt 1) (PyFloat (1 / 2))) = Some ''mouseMove''"
    by (simp add: event_defs)
  have h2: "in_unit (get_or_0 (normalizedX (mouseMove (PyInt 1) (PyFloat (1 / 2)))))"
    and h3: "in_unit (get_or_0 (normalizedY (mouseMove (PyInt 1) (PyFloat (1 / 2)))))"
    by (simp_all add: event_defs get_or_0_def in_unit_def)
  have w: "(0::int) < 1920" and h: "(0::int) < 1080" by simp_all
  from C7_coordinates_in_screen [OF h1 w h h2 h3, of "[]"] h1 h2 h3 w h
  show ?thesis by blast
qed

subsection \<open>Key events\<close>

text \<open>
  Claim C9, as stated, fails in its first case: a \<open>keyDown\<close> or \<open>keyUp\<close> event
  without a \<open>keyCode\<close> returns before the table is consulted and logs nothing,
  where the claim has a warning logged.
\<close>

theorem C9_absent_keycode_counterexample:
  "windows_inject_event 1920 1080 (bare_event ''keyDown'') [65] = ((False, PyInt 0), [65], [])
   \<and> linux_inject_event False 1920 1080 (bare_event ''keyDown'') = ((False, PyInt 0), [])
   \<and> keyCode (bare_event ''keyDown'') = None"
  by (simp add: windows_inject_event_def linux_inject_event_def event_defs)

text \<open>
  Claim C9, amended: a \<open>keyDown\<close> or \<open>keyUp\<close> event whose \<open>keyCode\<close> is absent
  performs no action at all (no injection call, no log record); one whose
  \<open>keyCode\<close> is not in the platform's key table performs no injection call
  and logs exactly one warning.  In both cases \<^verbatim>\<open>inject_event\<close> returns
  \<open>(False, 0)\<close> and \<^verbatim>\<open>_pressed_keys\<close> is unchanged.  Key code 9999 is in
  neither table.
\<close>

theorem C9_unmapped_key_dropped:
  "(etype e = Some ''keyDown'' \<or> etype e = Some ''keyUp'' \<longrightarrow>
      (keyCode e = None \<longrightarrow>
         windows_inject_event W H e ps = ((False, PyInt 0), ps, [])
         \<and> linux_inject_event WL W H e = ((False, PyInt 0), []))
      \<and> (\<forall>k. keyCode e = Some k \<and> map_of MAC_TO_WIN_KEYCODE k = None \<longrightarrow>
            windows_inject_event W H e ps
              = ((False, PyInt 0), ps, [Log WARNING (Unknown_Mac_keycode k)]))
      \<and> (\<forall>k. keyCode e = Some k \<and> map_of MAC_TO_LINUX_KEYCODE k = None \<longrightarrow>
            linux_inject_event WL W H e
              = ((False, PyInt 0), [Log WARNING (Unknown_Mac_keycode k)])))
   \<and> map_of MAC_TO_WIN_KEYCODE 9999 = None
   \<and> map_of MAC_TO_LINUX_KEYCODE 9999 = None"
proof -
  have absent: "windows_inject_event W H e ps = ((False, PyInt 0), ps, [])
      \<and> linux_inject_event WL W H e = ((False, PyInt 0), [])"
    if "etype e = Some ''keyDown'' \<or> etype e = Some ''keyUp''" and "keyCode e = None"
    using that by (auto simp: windows_inject_event_def linux_inject_event_def)
  have win: "windows_inject_event W H e ps
      = ((False, PyInt 0), ps, [Log WARNING (Unknown_Mac_keycode k)])"
    if "etype e = Some ''keyDown'' \<or> etype e = Some ''keyUp''"
      and "keyCode e = Some k" and "map_of MAC_TO_WIN_KEYCODE k = None" for k
    using that by (auto simp: windows_inject_event_def)
  have lin: "linux_inject_event WL W H e
      = ((False, PyInt 0), [Log WARNING (Unknown_Mac_keycode k)])"
    if "etype e = Some ''keyDown'' \<or> etype e = Some ''keyUp''"
      and "keyCode e = Some k" and "map_of MAC_TO_LINUX_KEYCODE k = None" for k
    using that by (auto simp: linux_inject_event_def)
  have w9999: "map_of MAC_TO_WIN_KEYCODE 9999 = None"
    by (simp add: MAC_TO_WIN_KEYCODE_def)
  have l9999: "map_of MAC_TO_LINUX_KEYCODE 9999 = None"
    by (simp add: MAC_TO_LINUX_KEYCODE_def)
  from absent win lin w9999 l9999 show ?thesis by blast
qed

theorem C9_unmapped_key_dropped_witness:
  "(etype (keyDown 9999) = Some ''keyDown'' \<or> etype (keyDown 9999) = Some ''keyUp'')
   \<and> keyCode (keyDown 9999) = Some 9999
   \<and> map_of MAC_TO_WIN_KEYCODE 9999 = None
   \<and> map_of MAC_TO_LINUX_KEYCODE 9999 = None
   \<and> windows_inject_event 1920 1080 (keyDown 9999) [65]
        = ((False, PyInt 0), [65], [Log WARNING (Unknown_Mac_keycode 9999)])
   \<and> linux_inject_event False 1920 1080 (keyDown 9999)
        = ((False, PyInt 0), [Log WARNING (Unknown_Mac_keycode 9999)])"
proof -
  have h: "etype (keyDown 9999) = Some ''keyDown'' \<or> etype (keyDown 9999) = Some ''keyUp''"
    and k: "keyCode (keyDown 9999) = Some 9999"
    by (simp_all add: event_defs)
  from C9_unmapped_key_dropped [of "keyDown 9999" 1920 1080 "[65]" False] h k
  show ?thesis by blast
qed

subsection \<open>Releasing what is pressed\<close>

lemma release_all_keys_covers:
  "\<forall>vk \<in> set ps. send_key_input vk False \<in> set (fst (release_all_keys ps))"
  "-1 \<in> set ps \<longrightarrow> send_mouse_input MOUSEEVENTF_LEFTUP 0 \<in> set (fst (release_all_keys ps))"
  "-2 \<in> set ps \<longrightarrow> send_mouse_input MOUSEEVENTF_RIGHTUP 0 \<in> set (fst (release_all_keys ps))"
  "snd (release_all_keys ps) = []"
  by (auto simp: release_all_keys_def)

lemma release_all_keys_nothing [simp]: "release_all_keys [] = ([], [])"
  by (simp add: release_all_keys_def)

lemma windows_returnControl:
  assumes "etype e = Some ''returnControl''"
  shows "windows_inject_event W H e ps
    = ((False, PyInt 0), [], fst (release_all_keys ps) @ [Log INFO Mac_sent_returnControl])"
  using assms by (simp add: windows_inject_event_def release_all_keys_def)

lemma linux_returnControl:
  assumes "etype e = Some ''returnControl''"
  shows "linux_inject_event WL W H e = ((False, PyInt 0), [Log INFO Mac_sent_returnControl])"
  using assms by (simp add: linux_inject_event_def)

lemma track_key_up [simp]: "track D (send_key_input vk False) = D - {Key (word_of_int vk)}"
  by (simp add: key_flag_defs)

lemma track_key_down [simp]: "track D (send_key_input vk True) = insert (Key (word_of_int vk)) D"
  by (simp add: key_flag_defs)

lemma track_mouse [simp]:
  "track D (send_mouse_input MOUSEEVENTF_LEFTDOWN 0) = insert Left_button D"
  "track D (send_mouse_input MOUSEEVENTF_LEFTUP 0) = D - {Left_button}"
  "track D (send_mouse_input MOUSEEVENTF_RIGHTDOWN 0) = insert Right_button D"
  "track D (send_mouse_input MOUSEEVENTF_RIGHTUP 0) = D - {Right_button}"
  "track D (send_mouse_input MOUSEEVENTF_WHEEL d) = D"
  "track D (send_mouse_input MOUSEEVENTF_HWHEEL d) = D"
  by (simp_all add: key_flag_defs MOUSEEVENTF_WHEEL_def MOUSEEVENTF_HWHEEL_def)


lemma table_values_not_negative:
  assumes "map_of MAC_TO_WIN_KEYCODE k = Some vk"
  shows "0 \<le> vk"
proof -
  have "\<forall>(k, v) \<in> set MAC_TO_WIN_KEYCODE. 0 \<le> v"
    by (simp add: MAC_TO_WIN_KEYCODE_def)
  with map_of_SomeD [OF assms] show ?thesis by blast
qed

lemma track_key_ups:
  "foldl track D (map (\<lambda>vk. send_key_input vk False) ps)
     = D - {Key (word_of_int vk) |vk. vk \<in> set ps}"
  by (induction ps arbitrary: D) auto

lemma track_release_all:
  assumes "D \<subseteq> recorded ps"
  shows "foldl track D (fst (release_all_keys ps)) = {}"
proof -
  let ?D1 = "D - {Key (word_of_int vk) |vk. vk \<in> set ps}"
  from assms have "?D1 \<subseteq> (if -1 \<in> set ps then {Left_button} else {})
      \<union> (if -2 \<in> set ps then {Right_button} else {})"
    by (auto simp: recorded_def split: if_splits)
  then show ?thesis
    by (auto simp: release_all_keys_def track_key_ups split: if_splits)
qed

lemma recorded_add_key: "0 \<le> vk \<Longrightarrow> recorded (set_add vk ps) = insert (Key (word_of_int vk)) (recorded ps)"
  by (auto simp: recorded_def set_add_def)

lemma recorded_discard_key:
  "0 \<le> vk \<Longrightarrow> recorded ps - {Key (word_of_int vk)} \<subseteq> recorded (set_discard vk ps)"
  by (auto simp: recorded_def set_discard_def)

lemma recorded_buttons:
  "recorded (set_add (-1) ps) = insert Left_button (recorded ps)"
  "recorded (set_add (-2) ps) = insert Right_button (recorded ps)"
  "recorded ps - {Left_button} \<subseteq> recorded (set_discard (-1) ps)"
  "recorded ps - {Right_button} \<subseteq> recorded (set_discard (-2) ps)"
  by (auto simp: recorded_def set_add_def set_discard_def)

lemma inject_keeps_recorded:
  assumes "D \<subseteq> recorded ps"
  shows "foldl track D (snd (snd (windows_inject_event W H e ps)))
    \<subseteq> recorded (fst (snd (windows_inject_event W H e ps)))"
proof (cases "etype e = Some ''mouseMove''")
  case True
  with assms show ?thesis by (simp add: windows_mouse_move)
next
  case False
  note nm = False
  show ?thesis
  proof (cases "etype e = Some ''keyDown'' \<or> etype e = Some ''keyUp''")
    case True
    show ?thesis
    proof (cases "keyCode e")
      case None
      with True assms show ?thesis by (auto simp: windows_inject_event_def)
    next
      case (Some k)
      show ?thesis
      proof (cases "map_of MAC_TO_WIN_KEYCODE k")
        case None
        with True Some assms show ?thesis by (auto simp: windows_inject_event_def)
      next
        case vk: (Some vk)
        then have pos: "0 \<le> vk" by (rule table_values_not_negative)
        from assms recorded_discard_key [OF pos, of ps]
        have "D - {Key (word_of_int vk)} \<subseteq> recorded (set_discard vk ps)" by blast
        with True Some vk assms pos show ?thesis
          by (auto simp: windows_inject_event_def recorded_add_key)
      qed
    qed
  next
    case False
    note nk = False
    show ?thesis
    proof (cases "etype e = Some ''returnControl''")
      case True
      from assms have "foldl track D (fst (release_all_keys ps)) = {}"
        by (rule track_release_all)
      with True show ?thesis by (simp add: windows_returnControl)
    next
      case False
      from assms recorded_buttons(3,4) [of ps]
      have "D - {Left_button} \<subseteq> recorded (set_discard (-1) ps)"
        and "D - {Right_button} \<subseteq> recorded (set_discard (-2) ps)"
        by blast+
      with nm nk False assms show ?thesis
        by (auto simp: windows_inject_event_def Let_def recorded_buttons(1,2))
    qed
  qed
qed


lemma inject_events_keep_recorded:
  assumes "D \<subseteq> recorded ps"
  shows "foldl track D (snd (windows_inject_events W H es ps))
    \<subseteq> recorded (fst (windows_inject_events W H es ps))"
  using assms
proof (induction es arbitrary: D ps)
  case Nil
  then show ?case by simp
next
  case (Cons e es)
  obtain r ps1 acts where step: "windows_inject_event W H e ps = (r, ps1, acts)"
    by (cases "windows_inject_event W H e ps") auto
  from inject_keeps_recorded [OF Cons.prems, of W H e] step
  have "foldl track D acts \<subseteq> recorded ps1" by simp
  from Cons.IH [OF this] step show ?case
    by (auto split: prod.split)
qed

lemma inject_events_append:
  "windows_inject_events W H (es @ es') ps =
     (fst (windows_inject_events W H es' (fst (windows_inject_events W H es ps))),
      snd (windows_inject_events W H es ps)
      @ snd (windows_inject_events W H es' (fst (windows_inject_events W H es ps))))"
  by (induction es arbitrary: ps) (simp_all split: prod.split)

lemma nothing_down_after_returnControl:
  assumes "etype e = Some ''returnControl''"
  shows "windows_inject_events W H (es @ [e]) [] = (ps', acts) \<Longrightarrow> ps' = [] \<and> left_down acts = {}"
proof -
  assume run: "windows_inject_events W H (es @ [e]) [] = (ps', acts)"
  let ?ps = "fst (windows_inject_events W H es [])"
  let ?acts = "snd (windows_inject_events W H es [])"
  have "foldl track {} ?acts \<subseteq> recorded ?ps"
    by (rule inject_events_keep_recorded) simp
  then have "foldl track (foldl track {} ?acts) (fst (release_all_keys ?ps)) = {}"
    by (rule track_release_all)
  with run show ?thesis
    by (auto simp: inject_events_append windows_returnControl [OF assms] left_down_def)
qed

text \<open>
  Claim C1, as stated, fails on Linux.  The Linux daemon keeps no record of
  what it has pressed, and its \<open>returnControl\<close> branch only writes a log
  record: after \<open>keyDown{keyCode: 0}\<close> and \<open>returnControl\<close> the device has seen
  the press of \<open>KEY_A\<close> and no release.
\<close>

theorem C1_linux_no_release_counterexample:
  "linux_inject_events False 1920 1080 [keyDown 0, bare_event ''returnControl'']
     = [Device_write ''EV_KEY'' ''KEY_A'' 1, Device_syn, Log INFO Mac_sent_returnControl]
   \<and> Device_write ''EV_KEY'' ''KEY_A'' 0
       \<notin> set (linux_inject_events False 1920 1080 [keyDown 0, bare_event ''returnControl''])"
  by (simp add: linux_inject_event_def event_defs MAC_TO_LINUX_KEYCODE_def)

text \<open>
  Claim C1, amended: on Windows, a received \<open>returnControl\<close> event calls
  \<^verbatim>\<open>_release_all_keys()\<close>: a key-up is sent for every member of
  \<^verbatim>\<open>_pressed_keys\<close>, a button-up for each mouse button recorded in it, and
  \<^verbatim>\<open>_pressed_keys\<close> is empty afterwards; a second \<open>returnControl\<close> in a row
  finds nothing to release, sends nothing, and leaves \<^verbatim>\<open>_pressed_keys\<close>
  empty.  Whatever events the client has processed since its start, once the
  \<open>returnControl\<close> event is applied none of the keys and buttons it pressed is
  left down.  On Linux a \<open>returnControl\<close> event performs no injection call.
\<close>

theorem C1_returnControl_releases_all:
  "etype e = Some ''returnControl'' \<longrightarrow>
     fst (windows_inject_event W H e ps) = (False, PyInt 0)
     \<and> fst (snd (windows_inject_event W H e ps)) = []
     \<and> (\<forall>vk \<in> set ps. send_key_input vk False \<in> set (snd (snd (windows_inject_event W H e ps))))
     \<and> (-1 \<in> set ps \<longrightarrow>
          send_mouse_input MOUSEEVENTF_LEFTUP 0 \<in> set (snd (snd (windows_inject_event W H e ps))))
     \<and> (-2 \<in> set ps \<longrightarrow>
          send_mouse_input MOUSEEVENTF_RIGHTUP 0 \<in> set (snd (snd (windows_inject_event W H e ps))))
     \<and> windows_inject_events W H [e, e] ps
          = ([], snd (snd (windows_inject_event W H e ps)) @ [Log INFO Mac_sent_returnControl])
     \<and> fst (windows_inject_events W H (es @ [e]) []) = []
     \<and> left_down (snd (windows_inject_events W H (es @ [e]) [])) = {}
     \<and> linux_inject_event WL W H e = ((False, PyInt 0), [Log INFO Mac_sent_returnControl])"
proof
  assume rc: "etype e = Some ''returnControl''"
  note w = windows_returnControl [OF rc]
  have twice: "windows_inject_events W H [e, e] ps
      = ([], snd (snd (windows_inject_event W H e ps)) @ [Log INFO Mac_sent_returnControl])"
    by (simp add: w)
  have after: "fst (windows_inject_events W H (es @ [e]) []) = []
      \<and> left_down (snd (windows_inject_events W H (es @ [e]) [])) = {}"
    using nothing_down_after_returnControl [OF rc, of W H es]
    by (cases "windows_inject_events W H (es @ [e]) []") simp
  from release_all_keys_covers(1-3) [of ps] twice after linux_returnControl [OF rc, of WL W H]
  show "fst (windows_inject_event W H e ps) = (False, PyInt 0)
     \<and> fst (snd (windows_inject_event W H e ps)) = []
     \<and> (\<forall>vk \<in> set ps. send_key_input vk False \<in> set (snd (snd (windows_inject_event W H e ps))))
     \<and> (-1 \<in> set ps \<longrightarrow>
          send_mouse_input MOUSEEVENTF_LEFTUP 0 \<in> set (snd (snd (windows_inject_event W H e ps))))
     \<and> (-2 \<in> set ps \<longrightarrow>
          send_mouse_input MOUSEEVENTF_RIGHTUP 0 \<in> set (snd (snd (windows_inject_event W H e ps))))
     \<and> windows_inject_events W H [e, e] ps
          = ([], snd (snd (windows_inject_event W H e ps)) @ [Log INFO Mac_sent_returnControl])
     \<and> fst (windows_inject_events W H (es @ [e]) []) = []
     \<and> left_down (snd (windows_inject_events W H (es @ [e]) [])) = {}
     \<and> linux_inject_event WL W H e = ((False, PyInt 0), [Log INFO Mac_sent_returnControl])"
    by (simp add: w)
qed

text \<open>
  The witness: the letter A (virtual key 65) and the left button are down when
  \<open>returnControl\<close> arrives.  The key-up with virtual key \<open>0xFFFF\<close> is the loop
  of \<^verbatim>\<open>_release_all_keys\<close> passing the button's slot \<open>-1\<close> to
  \<^verbatim>\<open>_send_key_input\<close>.
\<close>

theorem C1_returnControl_releases_all_witness:
  "etype (bare_event ''returnControl'') = Some ''returnControl''
   \<and> windows_inject_event 1920 1080 (bare_event ''returnControl'') [65, -1]
       = ((False, PyInt 0), [],
          [SendInput_key 65 2, SendInput_key 0xFFFF 2, SendInput_mouse 4 0,
           Log INFO (Released_stuck 2), Log INFO Mac_sent_returnControl])
   \<and> windows_inject_events 1920 1080
        [bare_event ''returnControl'', bare_event ''returnControl''] [65, -1]
       = ([],
          [SendInput_key 65 2, SendInput_key 0xFFFF 2, SendInput_mouse 4 0,
           Log INFO (Released_stuck 2), Log INFO Mac_sent_returnControl,
           Log INFO Mac_sent_returnControl])
   \<and> left_down (snd (windows_inject_events 1920 1080
        ([keyDown 0, bare_event ''leftMouseDown''] @ [bare_event ''returnControl'']) [])) = {}"
proof -
  have h: "etype (bare_event ''returnControl'') = Some ''returnControl''"
    by (simp add: event_defs)
  have v: "windows_inject_event 1920 1080 (bare_event ''returnControl'') [65, -1]
      = ((False, PyInt 0), [],
         [SendInput_key 65 2, SendInput_key 0xFFFF 2, SendInput_mouse 4 0,
          Log INFO (Released_stuck 2), Log INFO Mac_sent_returnControl])"
    by (simp add: windows_inject_event_def event_defs release_all_keys_def key_flag_defs)
  from C1_returnControl_releases_all [of "bare_event ''returnControl''" 1920 1080 "[65, -1]"
      "[keyDown 0, bare_event ''leftMouseDown'']"] h v
  show ?thesis by simp
qed

section \<open>Properties of the TCP client\<close>

subsection \<open>Reading frames\<close>

lemma example_loads_simps:
  "example_loads move_payload = Dict (mouseMove (PyFloat 0) (PyFloat (1 / 2)))"
  "example_loads key_payload = Dict (keyDown 0)"
  "example_loads cut_payload = Malformed"
  by (simp_all add: example_loads_def move_payload_def key_payload_def cut_payload_def ascii_def)

lemma payload_lengths:
  "length move_payload = 56" "length key_payload = 30" "length cut_payload = 18"
  by (simp_all add: move_payload_def key_payload_def cut_payload_def ascii_def)

lemma read_exact_done: "n \<le> length d \<Longrightarrow> read_exact n d s = (Inr d, s)"
  by (induction n d s rule: read_exact.induct) auto

lemma read_exact_chunk:
  assumes "length a = n" and "0 < n"
  shows "read_exact n [] (Data (a @ b) # s) = (Inr a, if b = [] then s else Data b # s)"
  using assms by (auto simp: read_exact_done)

lemma unpack_I_pack_I:
  assumes "n < 2 ^ 32"
  shows "unpack_I (pack_I n) = n"
proof -
  have d1: "n = 256 * (n div 256) + n mod 256" by simp
  have d2: "n div 256 = 256 * (n div 65536) + n div 256 mod 256"
    using div_mult_mod_eq [of "n div 256" 256] by (simp add: div_mult2_eq [symmetric] mult.commute)
  have d3: "n div 65536 = 256 * (n div 16777216) + n div 65536 mod 256"
    using div_mult_mod_eq [of "n div 65536" 256] by (simp add: div_mult2_eq [symmetric] mult.commute)
  from assms have top: "n div 16777216 < 256" by simp
  have "unpack_I (pack_I n)
      = 16777216 * (n div 16777216) + 65536 * (n div 65536 mod 256)
        + 256 * (n div 256 mod 256) + n mod 256"
    using top by (simp add: unpack_I_def pack_I_def unat_of_nat)
  also have "\<dots> = n" using d1 d2 d3 by linarith
  finally show ?thesis .
qed

lemma read_exact_frame:
  assumes "p \<noteq> []" and "length p < 2 ^ 32"
  shows "read_exact 4 [] (Data (frame p @ b) # s) = (Inr (pack_I (length p)), Data (p @ b) # s)"
    and "read_exact (length p) [] (Data (p @ b) # s) = (Inr p, if b = [] then s else Data b # s)"
proof -
  have "length (pack_I (length p)) = 4" by (simp add: pack_I_def)
  then have "read_exact 4 [] (Data (pack_I (length p) @ (p @ b)) # s)
      = (Inr (pack_I (length p)), if p @ b = [] then s else Data (p @ b) # s)"
    by (intro read_exact_chunk) simp_all
  with assms(1) show "read_exact 4 [] (Data (frame p @ b) # s)
      = (Inr (pack_I (length p)), Data (p @ b) # s)"
    by (simp add: frame_def)
  from assms(1) show "read_exact (length p) [] (Data (p @ b) # s)
      = (Inr p, if b = [] then s else Data b # s)"
    by (intro read_exact_chunk) simp_all
qed


lemma prepend_actions_simps [simp]:
  "prepend_actions acts (how, st, later, left) = (how, st, acts @ later, left)"
  "actions_of (prepend_actions acts r) = acts @ actions_of r"
  "actions_of (how, st, later, left) = later"
  "fst (prepend_actions acts r) = fst r"
  by (simp_all add: prepend_actions_def actions_of_def split: prod.split)

lemma windows_loop_bad_header:
  assumes "read_exact 4 [] incoming = (Inr header, s1)"
    and "unpack_I header = 0 \<or> 1000000 < unpack_I header"
  shows "windows_read_loop loads W H ps incoming drains
    = (Break, ps, [Log WARNING (Invalid_message_length (unpack_I header))], s1)"
  using assms by (subst windows_read_loop.simps) auto


lemma windows_loop_frame:
  assumes "read_exact 4 [] incoming = (Inr header, s1)"
    and "0 < unpack_I header" and "unpack_I header \<le> 1000000"
    and "read_exact (unpack_I header) [] s1 = (Inr payload, s2)"
  shows "windows_read_loop loads W H ps incoming drains =
    (case loads payload of
       Malformed \<Rightarrow> (Raised ValueError, ps, [], s2)
     | Not_a_dict \<Rightarrow> (Raised AttributeError, ps, [], s2)
     | Dict event \<Rightarrow>
        (case windows_inject_event W H event ps of
           ((should_return, norm_y), ps1, injected) \<Rightarrow>
            (if should_return then
               (case drains of
                  Some e # _ \<Rightarrow>
                    (Raised e, ps1,
                     injected @ [Log INFO Left_edge_hit, Write_returnControl norm_y], s2)
                | _ \<Rightarrow>
                    prepend_actions
                      (injected @ [Log INFO Left_edge_hit, Write_returnControl norm_y])
                      (windows_read_loop loads W H ps1 s2 (tl drains)))
             else prepend_actions injected (windows_read_loop loads W H ps1 s2 drains))))"
  using assms by (subst windows_read_loop.simps) simp

lemma linux_loop_frame:
  assumes "read_exact 4 [] incoming = (Inr header, s1)"
    and "0 < unpack_I header" and "unpack_I header \<le> 1000000"
    and "read_exact (unpack_I header) [] s1 = (Inr payload, s2)"
  shows "linux_read_loop loads WL W H incoming drains =
    (case loads payload of
       Malformed \<Rightarrow> (Raised ValueError, (), [], s2)
     | Not_a_dict \<Rightarrow> (Raised AttributeError, (), [], s2)
     | Dict event \<Rightarrow>
        (case linux_inject_event WL W H event of
           ((should_return, norm_y), injected) \<Rightarrow>
            (if should_return then
               (case drains of
                  Some e # _ \<Rightarrow>
                    (Raised e, (),
                     injected @ [Log INFO Left_edge_hit, Write_returnControl norm_y], s2)
                | _ \<Rightarrow>
                    prepend_actions
                      (injected @ [Log INFO Left_edge_hit, Write_returnControl norm_y])
                      (linux_read_loop loads WL W H s2 (tl drains)))
             else prepend_actions injected (linux_read_loop loads WL W H s2 drains))))"
  using assms by (subst linux_read_loop.simps) simp

lemma windows_loop_eof [simp]:
  "windows_read_loop loads W H ps [] drains = (Raised ConnectionError, ps, [], [])"
  by (subst windows_read_loop.simps) simp

lemma linux_loop_eof [simp]:
  "linux_read_loop loads WL W H [] drains = (Raised ConnectionError, (), [], [])"
  by (subst linux_read_loop.simps) simp

lemma windows_inject_no_write:
  "\<not> is_returnControl a" if "a \<in> set (snd (snd (windows_inject_event W H e ps)))"
  using that
  by (auto simp: windows_inject_event_def Let_def release_all_keys_def send_key_input_def
      send_mouse_input_def split: if_splits option.splits)

lemma linux_inject_no_write:
  "\<not> is_returnControl a" if "a \<in> set (snd (linux_inject_event WL W H e))"
  using that
  by (auto simp: linux_inject_event_def linux_inject_mouse_move_def Let_def
      split: if_splits option.splits)


lemma frame_not_empty [simp]: "frame p \<noteq> []"
  by (simp add: frame_def pack_I_def)

lemma payload_ok [simp]:
  "move_payload \<noteq> []" "key_payload \<noteq> []" "cut_payload \<noteq> []"
  "length move_payload \<le> 1000000" "length key_payload \<le> 1000000"
  "length cut_payload \<le> 1000000"
  using payload_lengths by auto

lemma framed_header:
  assumes "p \<noteq> []" and "length p \<le> 1000000"
  shows "read_exact 4 [] (Data (frame p @ b) # s) = (Inr (pack_I (length p)), Data (p @ b) # s)"
    and "unpack_I (pack_I (length p)) = length p"
    and "read_exact (unpack_I (pack_I (length p))) [] (Data (p @ b) # s)
           = (Inr p, if b = [] then s else Data b # s)"
proof -
  from assms(2) have small: "length p < 2 ^ 32" by simp
  from assms(1) small show "read_exact 4 [] (Data (frame p @ b) # s)
      = (Inr (pack_I (length p)), Data (p @ b) # s)"
    by (rule read_exact_frame(1))
  from small show u: "unpack_I (pack_I (length p)) = length p"
    by (rule unpack_I_pack_I)
  from assms(1) small show "read_exact (unpack_I (pack_I (length p))) [] (Data (p @ b) # s)
      = (Inr p, if b = [] then s else Data b # s)"
    unfolding u by (rule read_exact_frame(2))
qed

lemma windows_loop_framed:
  assumes "p \<noteq> []" and "length p \<le> 1000000"
  shows "windows_read_loop loads W H ps (Data (frame p @ b) # s) drains =
    (case loads p of
       Malformed \<Rightarrow> (Raised ValueError, ps, [], if b = [] then s else Data b # s)
     | Not_a_dict \<Rightarrow> (Raised AttributeError, ps, [], if b = [] then s else Data b # s)
     | Dict event \<Rightarrow>
        (case windows_inject_event W H event ps of
           ((should_return, norm_y), ps1, injected) \<Rightarrow>
            (if should_return then
               (case drains of
                  Some e # _ \<Rightarrow>
                    (Raised e, ps1,
                     injected @ [Log INFO Left_edge_hit, Write_returnControl norm_y],
                     if b = [] then s else Data b # s)
                | _ \<Rightarrow>
                    prepend_actions
                      (injected @ [Log INFO Left_edge_hit, Write_returnControl norm_y])
                      (windows_read_loop loads W H ps1 (if b = [] then s else Data b # s) (tl drains)))
             else prepend_actions injected
                    (windows_read_loop loads W H ps1 (if b = [] then s else Data b # s) drains))))"
proof -
  note f1 = framed_header(1) [OF assms, of b s]
    and f2 = framed_header(2) [OF assms]
    and f3 = framed_header(3) [OF assms, of b s]
  from assms(1) have pos: "0 < unpack_I (pack_I (length p))" by (simp add: f2)
  from assms(2) have le: "unpack_I (pack_I (length p)) \<le> 1000000" by (simp add: f2)
  show ?thesis by (rule windows_loop_frame [OF f1 pos le f3])
qed

lemma linux_loop_framed:
  assumes "p \<noteq> []" and "length p \<le> 1000000"
  shows "linux_read_loop loads WL W H (Data (frame p @ b) # s) drains =
    (case loads p of
       Malformed \<Rightarrow> (Raised ValueError, (), [], if b = [] then s else Data b # s)
     | Not_a_dict \<Rightarrow> (Raised AttributeError, (), [], if b = [] then s else Data b # s)
     | Dict event \<Rightarrow>
        (case linux_inject_event WL W H event of
           ((should_return, norm_y), injected) \<Rightarrow>
            (if should_return then
               (case drains of
                  Some e # _ \<Rightarrow>
                    (Raised e, (),
                     injected @ [Log INFO Left_edge_hit, Write_returnControl norm_y],
                     if b = [] then s else Data b # s)
                | _ \<Rightarrow>
                    prepend_actions
                      (injected @ [Log INFO Left_edge_hit, Write_returnControl norm_y])
                      (linux_read_loop loads WL W H (if b = [] then s else Data b # s) (tl drains)))
             else prepend_actions injected
                    (linux_read_loop loads WL W H (if b = [] then s else Data b # s) drains))))"
proof -
  note f1 = framed_header(1) [OF assms, of b s]
    and f2 = framed_header(2) [OF assms]
    and f3 = framed_header(3) [OF assms, of b s]
  from assms(1) have pos: "0 < unpack_I (pack_I (length p))" by (simp add: f2)
  from assms(2) have le: "unpack_I (pack_I (length p)) \<le> 1000000" by (simp add: f2)
  show ?thesis by (rule linux_loop_frame [OF f1 pos le f3])
qed

lemmas framed_last = windows_loop_framed [where b = "[]", simplified]
  linux_loop_framed [where b = "[]", simplified]

subsection \<open>Frames with an invalid length\<close>



subsection \<open>Payloads that are not JSON\<close>

text \<open>
  Claim C3, as stated, fails on both platforms.  A session receives two
  frames in one chunk: the payload of the first is cut off after a comma and is not
  JSON, the second is a well-formed \<open>keyDown\<close>.  \<^verbatim>\<open>json.loads\<close> raises
  on the first, the exception leaves the read loop and reaches the outer
  \<^verbatim>\<open>except Exception\<close>, and the round ends: the second frame is never read
  and its key is never injected.
\<close>

theorem C3_malformed_json_counterexample:
  "example_loads cut_payload = Malformed
   \<and> windows_round example_loads 1920 1080
        (Connects [Data (frame cut_payload @ frame key_payload)] []) []
       = ([],
          [Set_status Status_Connecting, Log INFO Connecting_to_Mac, Open_connection,
           Log INFO Connected_to_Mac, Set_status Status_Connected,
           Log ERROR Unexpected_error,
           Set_status Status_Disconnected, Writer_close,
           Log INFO Reconnecting, Sleep_reconnect_delay])
   \<and> linux_round example_loads False 1920 1080
        (Connects [Data (frame cut_payload @ frame key_payload)] [])
       = [Log INFO Connecting_to_Mac, Open_connection, Log INFO Connected_to_Mac,
          Log ERROR Unexpected_error,
          Log INFO Reconnecting, Sleep_reconnect_delay]"
proof -
  have w: "windows_read_loop example_loads 1920 1080 []
      [Data (frame cut_payload @ frame key_payload)] []
      = (Raised ValueError, [], [], [Data (frame key_payload)])"
    by (simp add: windows_loop_framed example_loads_simps)
  have l: "linux_read_loop example_loads False 1920 1080
      [Data (frame cut_payload @ frame key_payload)] []
      = (Raised ValueError, (), [], [Data (frame key_payload)])"
    by (simp add: linux_loop_framed example_loads_simps)
  show ?thesis
    by (simp add: example_loads_simps windows_round_def linux_round_def w l
        release_all_keys_def windows_except_def linux_except_def)
qed

text \<open>
  Claim C3, amended: when the payload of a well-framed frame is not JSON, the
  decoding raises (a \<^verbatim>\<open>ValueError\<close>; the code has no \<open>DecodeError\<close>) and
  the exception is not absorbed at the message level.  It leaves the read
  loop with nothing injected and the rest of the stream unread, is logged as an
  unexpected error, and the client goes on to reconnect, on Windows after
  releasing the pressed keys and closing the writer.
\<close>

theorem C3_malformed_json_ends_session:
  assumes "read_exact 4 [] incoming = (Inr header, s1)"
    and "0 < unpack_I header" and "unpack_I header \<le> 1000000"
    and "read_exact (unpack_I header) [] s1 = (Inr payload, s2)"
    and "loads payload = Malformed"
  shows "windows_read_loop loads W H ps incoming drains = (Raised ValueError, ps, [], s2)
       \<and> linux_read_loop loads WL W H incoming drains = (Raised ValueError, (), [], s2)
       \<and> windows_round loads W H (Connects incoming drains) ps
           = ([],
              [Set_status Status_Connecting, Log INFO Connecting_to_Mac, Open_connection,
               Log INFO Connected_to_Mac, Set_status Status_Connected,
               Log ERROR Unexpected_error]
              @ fst (release_all_keys ps)
              @ [Set_status Status_Disconnected, Writer_close,
                 Log INFO Reconnecting, Sleep_reconnect_delay])
       \<and> linux_round loads WL W H (Connects incoming drains)
           = [Log INFO Connecting_to_Mac, Open_connection, Log INFO Connected_to_Mac,
              Log ERROR Unexpected_error,
              Log INFO Reconnecting, Sleep_reconnect_delay]"
proof -
  have w: "windows_read_loop loads W H ps incoming drains = (Raised ValueError, ps, [], s2)"
    by (simp add: windows_loop_frame [OF assms(1-4)] assms(5))
  have l: "linux_read_loop loads WL W H incoming drains = (Raised ValueError, (), [], s2)"
    by (simp add: linux_loop_frame [OF assms(1-4)] assms(5))
  have wr: "windows_round loads W H (Connects incoming drains) ps
      = ([],
         [Set_status Status_Connecting, Log INFO Connecting_to_Mac, Open_connection,
          Log INFO Connected_to_Mac, Set_status Status_Connected,
          Log ERROR Unexpected_error]
         @ fst (release_all_keys ps)
         @ [Set_status Status_Disconnected, Writer_close,
            Log INFO Reconnecting, Sleep_reconnect_delay])"
    by (simp add: windows_round_def w release_all_keys_def windows_except_def)
  have lr: "linux_round loads WL W H (Connects incoming drains)
      = [Log INFO Connecting_to_Mac, Open_connection, Log INFO Connected_to_Mac,
         Log ERROR Unexpected_error,
         Log INFO Reconnecting, Sleep_reconnect_delay]"
    by (simp add: linux_round_def l linux_except_def)
  from w l wr lr show ?thesis by simp
qed

theorem C3_malformed_json_ends_session_witness:
  "read_exact 4 [] [Data (frame cut_payload), Data (frame key_payload)]
     = (Inr (pack_I 18), [Data cut_payload, Data (frame key_payload)])
   \<and> unpack_I (pack_I 18) = 18
   \<and> read_exact 18 [] [Data cut_payload, Data (frame key_payload)]
     = (Inr cut_payload, [Data (frame key_payload)])
   \<and> example_loads cut_payload = Malformed
   \<and> windows_read_loop example_loads 1920 1080 [65]
        [Data (frame cut_payload), Data (frame key_payload)] []
     = (Raised ValueError, [65], [], [Data (frame key_payload)])
   \<and> linux_read_loop example_loads False 1920 1080
        [Data (frame cut_payload), Data (frame key_payload)] []
     = (Raised ValueError, (), [], [Data (frame key_payload)])"
proof -
  have r1: "read_exact 4 [] [Data (frame cut_payload), Data (frame key_payload)]
      = (Inr (pack_I 18), [Data cut_payload, Data (frame key_payload)])"
    using framed_header(1) [of cut_payload "[]" "[Data (frame key_payload)]"]
    by (simp add: payload_lengths)
  have u: "unpack_I (pack_I 18) = 18"
    by (simp add: unpack_I_pack_I)
  have r2: "read_exact (unpack_I (pack_I 18)) [] [Data cut_payload, Data (frame key_payload)]
      = (Inr cut_payload, [Data (frame key_payload)])"
    using framed_header(3) [of cut_payload "[]" "[Data (frame key_payload)]"]
    by (simp add: payload_lengths)
  have pos: "0 < unpack_I (pack_I 18)" and le: "unpack_I (pack_I 18) \<le> 1000000"
    by (simp_all add: u)
  have m: "example_loads cut_payload = Malformed"
    by (simp add: example_loads_simps)
  from C3_malformed_json_ends_session [where loads = example_loads and payload = cut_payload
      and W = 1920 and H = 1080 and ps = "[65]" and drains = "[]" and WL = False,
      OF r1 pos le r2 m]
    r1 u r2 m
  show ?thesis by simp
qed

subsection \<open>Handback more than once in a session\<close>







lemma windows_loop_no_write:
  assumes "\<And>p e. loads p = Dict e \<Longrightarrow> etype e \<noteq> Some ''mouseMove''"
  shows "filter is_returnControl (actions_of (windows_read_loop loads W H ps incoming drains)) = []"
  using assms
proof (induction loads W H ps incoming drains rule: windows_read_loop.induct)
  case (1 loads W H pressed incoming drains)
  show ?case
  proof (cases "read_exact 4 [] incoming")
    case (Pair r1 s1)
    show ?thesis
    proof (cases r1)
      case (Inl e)
      with Pair show ?thesis by (subst windows_read_loop.simps) simp
    next
      case (Inr header)
      show ?thesis
      proof (cases "unpack_I header = 0 \<or> 1000000 < unpack_I header")
        case True
        with Pair Inr show ?thesis by (subst windows_read_loop.simps) auto
      next
        case False
        show ?thesis
        proof (cases "read_exact (unpack_I header) [] s1")
          case p2: (Pair r2 s2)
          show ?thesis
          proof (cases r2)
            case (Inl e)
            with Pair Inr False p2 show ?thesis by (subst windows_read_loop.simps) simp
          next
            case i2: (Inr payload)
            show ?thesis
            proof (cases "loads payload")
              case Malformed
              with Pair Inr False p2 i2 show ?thesis by (subst windows_read_loop.simps) simp
            next
              case Not_a_dict
              with Pair Inr False p2 i2 show ?thesis by (subst windows_read_loop.simps) simp
            next
              case (Dict e)
              with "1.prems" have nm: "etype e \<noteq> Some ''mouseMove''" by blast
              obtain ps1 inj where inj: "windows_inject_event W H e pressed = ((False, PyInt 0), ps1, inj)"
                using windows_not_mouse_move [OF nm, of W H pressed]
                by (cases "windows_inject_event W H e pressed") auto
              have quiet: "filter is_returnControl inj = []"
                using windows_inject_no_write [of _ W H e pressed] inj
                by (auto simp: filter_empty_conv)
              have ih: "filter is_returnControl
                  (actions_of (windows_read_loop loads W H ps1 s2 drains)) = []"
                using "1.IH"(3) [OF Pair [symmetric] Inr False p2 [symmetric] i2 Dict inj [symmetric] refl refl]
                  "1.prems" by simp
              from Pair Inr False p2 i2 Dict inj quiet ih show ?thesis
                by (subst windows_read_loop.simps) simp
            qed
          qed
        qed
      qed
    qed
  qed
qed

lemma linux_loop_no_write:
  assumes "\<And>p e. loads p = Dict e \<Longrightarrow> etype e \<noteq> Some ''mouseMove''"
  shows "filter is_returnControl (actions_of (linux_read_loop loads WL W H incoming drains)) = []"
  using assms
proof (induction loads WL W H incoming drains rule: linux_read_loop.induct)
  case (1 loads WL W H incoming drains)
  show ?case
  proof (cases "read_exact 4 [] incoming")
    case (Pair r1 s1)
    show ?thesis
    proof (cases r1)
      case (Inl e)
      with Pair show ?thesis by (subst linux_read_loop.simps) simp
    next
      case (Inr header)
      show ?thesis
      proof (cases "unpack_I header = 0 \<or> 1000000 < unpack_I header")
        case True
        with Pair Inr show ?thesis by (subst linux_read_loop.simps) auto
      next
        case False
        show ?thesis
        proof (cases "read_exact (unpack_I header) [] s1")
          case p2: (Pair r2 s2)
          show ?thesis
          proof (cases r2)
            case (Inl e)
            with Pair Inr False p2 show ?thesis by (subst linux_read_loop.simps) simp
          next
            case i2: (Inr payload)
            show ?thesis
            proof (cases "loads payload")
              case Malformed
              with Pair Inr False p2 i2 show ?thesis by (subst linux_read_loop.simps) simp
            next
              case Not_a_dict
              with Pair Inr False p2 i2 show ?thesis by (subst linux_read_loop.simps) simp
            next
              case (Dict e)
              with "1.prems" have nm: "etype e \<noteq> Some ''mouseMove''" by blast
              obtain inj where inj: "linux_inject_event WL W H e = ((False, PyInt 0), inj)"
                using linux_not_mouse_move [OF nm, of WL W H]
                by (cases "linux_inject_event WL W H e") auto
              have quiet: "filter is_returnControl inj = []"
                using linux_inject_no_write [of _ WL W H e] inj
                by (auto simp: filter_empty_conv)
              have ih: "filter is_returnControl
                  (actions_of (linux_read_loop loads WL W H s2 drains)) = []"
                using "1.IH"(3) [OF Pair [symmetric] Inr False p2 [symmetric] i2 Dict inj [symmetric] refl]
                  "1.prems" by simp
              from Pair Inr False p2 i2 Dict inj quiet ih show ?thesis
                by (subst linux_read_loop.simps) simp
            qed
          qed
        qed
      qed
    qed
  qed
qed


subsection \<open>Which events hand control back\<close>

text \<open>
  Claim C10: for every event whose type is not \<open>mouseMove\<close> (a button, key,
  scroll or \<open>returnControl\<close> event, an unknown type, a missing type)
  \<^verbatim>\<open>inject_event\<close> returns \<open>(False, 0)\<close>, on both platforms; and a read loop
  whose frames never decode to a \<open>mouseMove\<close> event writes no
  \<open>returnControl\<close> frame, whatever the stream.
\<close>

theorem C10_only_mouse_move_hands_back:
  "(etype e \<noteq> Some ''mouseMove'' \<longrightarrow>
      fst (windows_inject_event W H e ps) = (False, PyInt 0)
      \<and> fst (linux_inject_event WL W H e) = (False, PyInt 0))
   \<and> ((\<forall>p ev. loads p = Dict ev \<longrightarrow> etype ev \<noteq> Some ''mouseMove'') \<longrightarrow>
        filter is_returnControl
          (actions_of (windows_read_loop loads W H ps incoming drains)) = []
        \<and> filter is_returnControl
            (actions_of (linux_read_loop loads WL W H incoming drains)) = [])"
proof (intro conjI impI)
  assume "etype e \<noteq> Some ''mouseMove''"
  then show "fst (windows_inject_event W H e ps) = (False, PyInt 0)"
    by (rule windows_not_mouse_move)
next
  assume "etype e \<noteq> Some ''mouseMove''"
  then show "fst (linux_inject_event WL W H e) = (False, PyInt 0)"
    by (rule linux_not_mouse_move)
next
  assume "\<forall>p ev. loads p = Dict ev \<longrightarrow> etype ev \<noteq> Some ''mouseMove''"
  then show "filter is_returnControl
      (actions_of (windows_read_loop loads W H ps incoming drains)) = []"
    by (intro windows_loop_no_write) blast
next
  assume "\<forall>p ev. loads p = Dict ev \<longrightarrow> etype ev \<noteq> Some ''mouseMove''"
  then show "filter is_returnControl
      (actions_of (linux_read_loop loads WL W H incoming drains)) = []"
    by (intro linux_loop_no_write) blast
qed

text \<open>
  The witness: a \<open>returnControl\<close> event, and a session that receives two
  \<open>keyDown\<close> frames, with a decoder that knows this one payload.
\<close>

theorem C10_only_mouse_move_hands_back_witness:
  "etype (bare_event ''returnControl'') \<noteq> Some ''mouseMove''
   \<and> fst (windows_inject_event 1920 1080 (bare_event ''returnControl'') [65]) = (False, PyInt 0)
   \<and> fst (linux_inject_event False 1920 1080 (bare_event ''returnControl'')) = (False, PyInt 0)
   \<and> filter is_returnControl
        (actions_of (windows_read_loop
           (\<lambda>p. if p = key_payload then Dict (keyDown 0) else Malformed) 1920 1080 [65]
           [Data (frame key_payload), Data (frame key_payload)] [])) = []
   \<and> filter is_returnControl
        (actions_of (linux_read_loop
           (\<lambda>p. if p = key_payload then Dict (keyDown 0) else Malformed) False 1920 1080
           [Data (frame key_payload), Data (frame key_payload)] [])) = []"
proof -
  have h1: "etype (bare_event ''returnControl'') \<noteq> Some ''mouseMove''"
    by (simp add: event_defs)
  have h2: "\<forall>p ev. (\<lambda>p. if p = key_payload then Dict (keyDown 0) else Malformed) p = Dict ev
      \<longrightarrow> etype ev \<noteq> Some ''mouseMove''"
    by (auto simp: event_defs)
  from C10_only_mouse_move_hands_back [of "bare_event ''returnControl''" 1920 1080 "[65]" False
      "\<lambda>p. if p = key_payload then Dict (keyDown 0) else Malformed"
      "[Data (frame key_payload), Data (frame key_payload)]" "[]"] h1 h2
  show ?thesis by blast
qed

subsection \<open>The end of a session\<close>

lemma windows_round_connects:
  "windows_round loads W H (Connects incoming drains) ps =
     ([],
      [Set_status Status_Connecting, Log INFO Connecting_to_Mac, Open_connection,
       Log INFO Connected_to_Mac, Set_status Status_Connected]
      @ actions_of (windows_read_loop loads W H ps incoming drains)
      @ (case fst (windows_read_loop loads W H ps incoming drains) of
           Break \<Rightarrow> [] | Raised e \<Rightarrow> [windows_except e])
      @ fst (release_all_keys (fst (snd (windows_read_loop loads W H ps incoming drains))))
      @ [Set_status Status_Disconnected, Writer_close,
         Log INFO Reconnecting, Sleep_reconnect_delay])"
  by (simp add: windows_round_def release_all_keys_def actions_of_def split: prod.split)

lemma state_of_prepend [simp]: "fst (snd (prepend_actions acts r)) = fst (snd r)"
  by (simp add: prepend_actions_def split: prod.split)

lemma windows_loop_keeps_recorded:
  assumes "D \<subseteq> recorded ps"
  shows "foldl track D (actions_of (windows_read_loop loads W H ps incoming drains))
    \<subseteq> recorded (fst (snd (windows_read_loop loads W H ps incoming drains)))"
  using assms
proof (induction loads W H ps incoming drains arbitrary: D rule: windows_read_loop.induct)
  case (1 loads W H pressed incoming drains)
  let ?loop = "windows_read_loop loads W H pressed incoming drains"
  show ?case
  proof (cases "read_exact 4 [] incoming")
    case (Pair r1 s1)
    show ?thesis
    proof (cases r1)
      case (Inl e)
      with Pair have "?loop = (Raised e, pressed, [], s1)"
        by (subst windows_read_loop.simps) simp
      with "1.prems" show ?thesis by simp
    next
      case (Inr header)
      show ?thesis
      proof (cases "unpack_I header = 0 \<or> 1000000 < unpack_I header")
        case True
        with Pair Inr have "?loop
            = (Break, pressed, [Log WARNING (Invalid_message_length (unpack_I header))], s1)"
          by (intro windows_loop_bad_header) simp_all
        with "1.prems" show ?thesis by simp
      next
        case False
        note good = False
        then have pos: "0 < unpack_I header" and le: "unpack_I header \<le> 1000000" by simp_all
        show ?thesis
        proof (cases "read_exact (unpack_I header) [] s1")
          case p2: (Pair r2 s2)
          show ?thesis
          proof (cases r2)
            case (Inl e)
            with Pair Inr good p2 have "?loop = (Raised e, pressed, [], s2)"
              by (subst windows_read_loop.simps) simp
            with "1.prems" show ?thesis by simp
          next
            case i2: (Inr payload)
            note frame = windows_loop_frame [OF Pair [unfolded Inr] pos le p2 [unfolded i2],
                of loads W H pressed drains]
            show ?thesis
            proof (cases "loads payload")
              case Malformed
              with frame "1.prems" show ?thesis by simp
            next
              case Not_a_dict
              with frame "1.prems" show ?thesis by simp
            next
              case (Dict e)
              obtain sr ny ps1 inj where inj:
                "windows_inject_event W H e pressed = ((sr, ny), ps1, inj)"
                by (cases "windows_inject_event W H e pressed") auto
              from inject_keeps_recorded [OF "1.prems", of W H e] inj
              have D1: "foldl track D inj \<subseteq> recorded ps1" by simp
              show ?thesis
              proof (cases sr)
                case False
                from "1.IH"(3) [OF Pair [symmetric] Inr good p2 [symmetric] i2 Dict
                    inj [symmetric] refl refl _ D1] False
                have ih: "foldl track (foldl track D inj)
                    (actions_of (windows_read_loop loads W H ps1 s2 drains))
                  \<subseteq> recorded (fst (snd (windows_read_loop loads W H ps1 s2 drains)))"
                  by simp
                from frame Dict inj False
                have "?loop = prepend_actions inj (windows_read_loop loads W H ps1 s2 drains)"
                  by simp
                with ih show ?thesis by simp
              next
                case True
                show ?thesis
                proof (cases drains)
                  case Nil
                  from "1.IH"(1) [OF Pair [symmetric] Inr good p2 [symmetric] i2 Dict
                      inj [symmetric] refl refl _ Nil D1] True
                  have ih: "foldl track (foldl track D inj)
                      (actions_of (windows_read_loop loads W H ps1 s2 (tl drains)))
                    \<subseteq> recorded (fst (snd (windows_read_loop loads W H ps1 s2 (tl drains))))"
                    by simp
                  from frame Dict inj True Nil
                  have "?loop = prepend_actions
                      (inj @ [Log INFO Left_edge_hit, Write_returnControl ny])
                      (windows_read_loop loads W H ps1 s2 (tl drains))"
                    by simp
                  with ih show ?thesis by simp
                next
                  case (Cons d rest)
                  show ?thesis
                  proof (cases d)
                    case None
                    from "1.IH"(2) [OF Pair [symmetric] Inr good p2 [symmetric] i2 Dict
                        inj [symmetric] refl refl _ Cons None D1] True
                    have ih: "foldl track (foldl track D inj)
                        (actions_of (windows_read_loop loads W H ps1 s2 (tl drains)))
                      \<subseteq> recorded (fst (snd (windows_read_loop loads W H ps1 s2 (tl drains))))"
                      by simp
                    from frame Dict inj True Cons None
                    have "?loop = prepend_actions
                        (inj @ [Log INFO Left_edge_hit, Write_returnControl ny])
                        (windows_read_loop loads W H ps1 s2 (tl drains))"
                      by simp
                    with ih show ?thesis by simp
                  next
                    case (Some ex)
                    from frame Dict inj True Cons Some
                    have "?loop = (Raised ex, ps1,
                        inj @ [Log INFO Left_edge_hit, Write_returnControl ny], s2)"
                      by simp
                    with D1 show ?thesis by simp
                  qed
                qed
              qed
            qed
          qed
        qed
      qed
    qed
  qed
qed

lemma windows_round_leaves_nothing_down:
  assumes "D \<subseteq> recorded ps"
  shows "fst (windows_round loads W H att ps) = []
       \<and> foldl track D (snd (windows_round loads W H att ps)) = {}"
proof (cases att)
  case (Connect_fails e)
  from assms have "foldl track D (fst (release_all_keys ps)) = {}"
    by (rule track_release_all)
  with Connect_fails release_all_keys_covers(4) [of ps] show ?thesis
    by (auto simp: windows_round_def windows_except_def split: prod.split)
next
  case (Connects incoming drains)
  let ?loop = "windows_read_loop loads W H ps incoming drains"
  from assms have "foldl track D (actions_of ?loop) \<subseteq> recorded (fst (snd ?loop))"
    by (rule windows_loop_keeps_recorded)
  then have "foldl track (foldl track D (actions_of ?loop))
      (fst (release_all_keys (fst (snd ?loop)))) = {}"
    by (rule track_release_all)
  with Connects show ?thesis
    by (simp add: windows_round_connects windows_except_def split: ending.split)
qed

lemma windows_client_leaves_nothing_down:
  assumes "D \<subseteq> recorded ps" and "atts \<noteq> []"
  shows "fst (windows_tcp_client loads W H atts ps) = []
       \<and> foldl track D (snd (windows_tcp_client loads W H atts ps)) = {}"
  using assms
proof (induction atts arbitrary: D ps)
  case Nil
  then show ?case by simp
next
  case (Cons att atts)
  note first = windows_round_leaves_nothing_down [OF Cons.prems(1), of loads W H att]
  show ?case
  proof (cases "atts = []")
    case True
    with first show ?thesis by (simp split: prod.split)
  next
    case False
    have "{} \<subseteq> recorded []" by simp
    from Cons.IH [OF this False] first show ?thesis
      by (auto split: prod.split)
  qed
qed

text \<open>
  Claim C2, as stated, fails on Linux.  A session injects the press of the
  letter A and then the peer closes the stream: the Linux daemon logs the lost
  connection and sleeps, and the next \<^verbatim>\<open>open_connection\<close> follows with no
  release of \<open>KEY_A\<close> and no \<^verbatim>\<open>writer.close()\<close> in between.
\<close>

theorem C2_linux_no_release_no_close_counterexample:
  "linux_tcp_client example_loads False 1920 1080
      [Connects [Data (frame key_payload)] [], Connect_fails OSError]
     = [Log INFO Connecting_to_Mac, Open_connection, Log INFO Connected_to_Mac,
        Device_write ''EV_KEY'' ''KEY_A'' 1, Device_syn,
        Log WARNING Connection_lost,
        Log INFO Reconnecting, Sleep_reconnect_delay,
        Log INFO Connecting_to_Mac, Open_connection,
        Log WARNING Connection_lost,
        Log INFO Reconnecting, Sleep_reconnect_delay]"
proof -
  have i: "linux_inject_event False 1920 1080 (keyDown 0)
      = ((False, PyInt 0), [Device_write ''EV_KEY'' ''KEY_A'' 1, Device_syn])"
    by (simp add: linux_inject_event_def event_defs MAC_TO_LINUX_KEYCODE_def)
  have l: "linux_read_loop example_loads False 1920 1080 [Data (frame key_payload)] []
      = (Raised ConnectionError, (), [Device_write ''EV_KEY'' ''KEY_A'' 1, Device_syn], [])"
    by (simp add: framed_last example_loads_simps i)
  show ?thesis
    by (simp add: linux_round_def l linux_except_def)
qed

text \<open>
  Claim C2, amended: on Windows, however the read loop of a session ends (by
  an exception of a read, of the decoding, of the dispatch or of a write, by
  a timeout, or by the \<^verbatim>\<open>break\<close> on an invalid length), the round ends
  with \<^verbatim>\<open>_release_all_keys()\<close> on what is pressed at that moment (a key-up
  for every member of \<^verbatim>\<open>_pressed_keys\<close>, a button-up for each recorded
  mouse button), the status \<open>Disconnected\<close>, \<^verbatim>\<open>writer.close()\<close>, and the
  sleep, in this order; \<^verbatim>\<open>_pressed_keys\<close> is then empty, and all of it
  precedes the next connection attempt.  Whatever rounds came before since
  the start of the client, when the round of a session is over none of the keys
  and buttons the client pressed is left down.
\<close>

theorem C2_windows_session_end_releases_and_closes:
  "\<exists>before held.
     held = fst (snd (windows_read_loop loads W H ps incoming drains))
     \<and> windows_round loads W H (Connects incoming drains) ps
         = ([],
            before @ fst (release_all_keys held)
            @ [Set_status Status_Disconnected, Writer_close,
               Log INFO Reconnecting, Sleep_reconnect_delay])
     \<and> (\<forall>vk \<in> set held. send_key_input vk False \<in> set (fst (release_all_keys held)))
     \<and> (-1 \<in> set held \<longrightarrow>
          send_mouse_input MOUSEEVENTF_LEFTUP 0 \<in> set (fst (release_all_keys held)))
     \<and> (-2 \<in> set held \<longrightarrow>
          send_mouse_input MOUSEEVENTF_RIGHTUP 0 \<in> set (fst (release_all_keys held)))
     \<and> windows_tcp_client loads W H (Connects incoming drains # atts) ps
         = (fst (windows_tcp_client loads W H atts []),
            snd (windows_round loads W H (Connects incoming drains) ps)
            @ snd (windows_tcp_client loads W H atts []))
     \<and> left_down (snd (windows_tcp_client loads W H
           (earlier @ [Connects incoming drains]) [])) = {}"
proof -
  let ?loop = "windows_read_loop loads W H ps incoming drains"
  let ?held = "fst (snd ?loop)"
  let ?before = "[Set_status Status_Connecting, Log INFO Connecting_to_Mac, Open_connection,
       Log INFO Connected_to_Mac, Set_status Status_Connected]
      @ actions_of ?loop
      @ (case fst ?loop of Break \<Rightarrow> [] | Raised e \<Rightarrow> [windows_except e])"
  have r: "windows_round loads W H (Connects incoming drains) ps
      = ([], ?before @ fst (release_all_keys ?held)
             @ [Set_status Status_Disconnected, Writer_close,
                Log INFO Reconnecting, Sleep_reconnect_delay])"
    by (simp add: windows_round_connects)
  have c: "windows_tcp_client loads W H (Connects incoming drains # atts) ps
      = (fst (windows_tcp_client loads W H atts []),
         snd (windows_round loads W H (Connects incoming drains) ps)
         @ snd (windows_tcp_client loads W H atts []))"
    by (simp add: r split: prod.split)
  have "{} \<subseteq> recorded []" by simp
  from windows_client_leaves_nothing_down [OF this, of "earlier @ [Connects incoming drains]"
      loads W H]
  have d: "left_down (snd (windows_tcp_client loads W H
      (earlier @ [Connects incoming drains]) [])) = {}"
    by (simp add: left_down_def)
  from r c d release_all_keys_covers(1-3) [of ?held] show ?thesis by blast
qed

text \<open>
  The witness: the letter A is pressed in a session whose stream then ends.
\<close>

theorem C2_windows_session_end_releases_and_closes_witness:
  "windows_tcp_client example_loads 1920 1080
      [Connects [Data (frame key_payload)] [], Connect_fails OSError] []
     = ([],
        [Set_status Status_Connecting, Log INFO Connecting_to_Mac, Open_connection,
         Log INFO Connected_to_Mac, Set_status Status_Connected,
         SendInput_key 65 0,
         Log WARNING Connection_lost,
         SendInput_key 65 2, Log INFO (Released_stuck 1),
         Set_status Status_Disconnected, Writer_close,
         Log INFO Reconnecting, Sleep_reconnect_delay,
         Set_status Status_Connecting, Log INFO Connecting_to_Mac, Open_connection,
         Log WARNING Connection_lost,
         Set_status Status_Disconnected,
         Log INFO Reconnecting, Sleep_reconnect_delay])"
proof -
  have i: "windows_inject_event 1920 1080 (keyDown 0) []
      = ((False, PyInt 0), [65], [SendInput_key 65 0])"
    by (simp add: windows_inject_event_def event_defs MAC_TO_WIN_KEYCODE_def set_add_def
        key_flag_defs)
  have l: "windows_read_loop example_loads 1920 1080 [] [Data (frame key_payload)] []
      = (Raised ConnectionError, [65], [SendInput_key 65 0], [])"
    by (simp add: framed_last example_loads_simps i)
  have rel: "release_all_keys [65] = ([SendInput_key 65 2, Log INFO (Released_stuck 1)], [])"
    by (simp add: release_all_keys_def key_flag_defs)
  have r: "windows_round example_loads 1920 1080 (Connects [Data (frame key_payload)] []) []
      = ([],
         [Set_status Status_Connecting, Log INFO Connecting_to_Mac, Open_connection,
          Log INFO Connected_to_Mac, Set_status Status_Connected,
          SendInput_key 65 0,
          Log WARNING Connection_lost,
          SendInput_key 65 2, Log INFO (Released_stuck 1),
          Set_status Status_Disconnected, Writer_close,
          Log INFO Reconnecting, Sleep_reconnect_delay])"
    by (simp add: windows_round_connects l rel windows_except_def)
  have f: "windows_tcp_client example_loads 1920 1080 [Connect_fails OSError] []
      = ([],
         [Set_status Status_Connecting, Log INFO Connecting_to_Mac, Open_connection,
          Log WARNING Connection_lost,
          Set_status Status_Disconnected,
          Log INFO Reconnecting, Sleep_reconnect_delay])"
    by (simp add: windows_round_def windows_except_def)
  from C2_windows_session_end_releases_and_closes [of example_loads 1920 1080 "[]"
      "[Data (frame key_payload)]" "[]" "[Connect_fails OSError]" "[]"]
  have "windows_tcp_client example_loads 1920 1080
      (Connects [Data (frame key_payload)] [] # [Connect_fails OSError]) []
      = (fst (windows_tcp_client example_loads 1920 1080 [Connect_fails OSError] []),
         snd (windows_round example_loads 1920 1080 (Connects [Data (frame key_payload)] []) [])
         @ snd (windows_tcp_client example_loads 1920 1080 [Connect_fails OSError] []))"
    by blast
  then show ?thesis by (simp only: r f fst_conv snd_conv append.simps)
qed

end
